theory Spec2Isabelle
  imports Complex_Main
begin

section \<open>Common conventions\<close>

text \<open>
  Exceptions are values: an operation that may raise returns \<open>error + 'a\<close>, with
  \<open>Inl\<close> the exception. A method that mutates its object returns the object as it is
  after the call next to the result, also when the call raised.

  Tensor entries and Python floats are modelled as exact reals. The one special float value
  that the code can produce without overflow, NaN (the mean of nothing), is the value
  \<open>None\<close> of a \<open>metric\<close>.
\<close>

datatype error = IndexError | ValueError | RuntimeError

definition bind_err :: "error + 'a \<Rightarrow> ('a \<Rightarrow> error + 'b) \<Rightarrow> error + 'b" where
  "bind_err r f = (case r of Inl e \<Rightarrow> Inl e | Inr v \<Rightarrow> f v)"

type_synonym metric = "real option"

section \<open>pretrain.py\<close>

subsection \<open>Losses\<close>

text \<open>
  \<open>nn.MSELoss()\<close> and \<open>nn.L1Loss()\<close> with the default reduction (mean), on rank-1
  tensors: equal sizes are compared entrywise, a size-1 tensor is broadcast against the
  other, any other pair of sizes raises. The mean of no entries is NaN.
\<close>

definition broadcast_pair :: "real list \<Rightarrow> real list \<Rightarrow> error + (real list \<times> real list)" where
  "broadcast_pair xs ys =
     (if length xs = length ys then Inr (xs, ys)
      else if length xs = 1 then Inr (replicate (length ys) (hd xs), ys)
      else if length ys = 1 then Inr (xs, replicate (length xs) (hd ys))
      else Inl RuntimeError)"

definition mean :: "real list \<Rightarrow> metric" where
  "mean xs = (if xs = [] then None else Some (sum_list xs / real (length xs)))"

definition loss_fn :: "real list \<Rightarrow> real list \<Rightarrow> error + metric" where
  "loss_fn input target =
     bind_err (broadcast_pair input target)
       (\<lambda>(a, b). Inr (mean (map2 (\<lambda>x y. (x - y)\<^sup>2) a b)))"

definition mae_loss_fn :: "real list \<Rightarrow> real list \<Rightarrow> error + metric" where
  "mae_loss_fn input target =
     bind_err (broadcast_pair input target)
       (\<lambda>(a, b). Inr (mean (map2 (\<lambda>x y. \<bar>x - y\<bar>) a b)))"

text \<open>\<open>torch.sqrt\<close> of a scalar loss: NaN stays NaN.\<close>

definition torch_sqrt :: "metric \<Rightarrow> metric" where
  "torch_sqrt m = map_option sqrt m"

text \<open>\<open>np.mean\<close> of a Python list of floats: NaN for the empty list and for a list that holds a NaN.\<close>

definition np_mean :: "metric list \<Rightarrow> metric" where
  "np_mean ms =
     (if ms = [] \<or> None \<in> set ms then None
      else Some (sum_list (map the ms) / real (length ms)))"

text \<open>
  Lines 78 to 91 of \<open>epoch_step\<close>: the four losses of one batch, as
  \<open>(loss, mse_loss, mae_loss, rmse_loss)\<close>.
\<close>

definition batch_losses ::
  "bool \<Rightarrow> real list \<Rightarrow> real list \<Rightarrow> error + (metric \<times> metric \<times> metric \<times> metric)" where
  "batch_losses normalize_loss outputs target_rating =
     (if normalize_loss then
        bind_err (loss_fn outputs (map (\<lambda>t. t / 5) target_rating)) (\<lambda>loss.
        bind_err (loss_fn (map (\<lambda>v. v * 5) outputs) target_rating) (\<lambda>mse_loss.
        bind_err (mae_loss_fn (map (\<lambda>v. v * 5) outputs) target_rating) (\<lambda>mae_loss.
        Inr (loss, mse_loss, mae_loss, torch_sqrt mse_loss))))
      else
        bind_err (loss_fn outputs target_rating) (\<lambda>loss.
        bind_err (loss_fn outputs target_rating) (\<lambda>mse_loss.
        bind_err (mae_loss_fn outputs target_rating) (\<lambda>mae_loss.
        Inr (loss, mse_loss, mae_loss, torch_sqrt mse_loss)))))"

subsection \<open>The trainer and its collaborators\<close>

text \<open>
  The base model, the optimizer and the learning-rate scheduler are not part of these
  sources. Their state is one value of type \<open>'m\<close>, and what the trainer asks of them
  is a parameter: the forward pass; \<open>optimizer.zero_grad()\<close>; \<open>loss.backward()\<close>
  followed by \<open>optimizer.step()\<close>, where the loss is given as the function of the outputs
  of the model that it was computed by; \<open>lr_scheduler.step()\<close>; reading the state dict
  of \<open>model.bert\<close>, of type \<open>'b\<close>; and restoring one with \<open>load_state_dict\<close>,
  which may raise, and then returns the model with the entries it had copied before.
  \<open>torch.save\<close> turns a state dict into the content of a file, of type \<open>'f\<close>, and
  \<open>torch.load\<close> reads the content of a file, or raises.
\<close>

record ('m, 'b, 'f, 'x) collaborators =
  model_call :: "'m \<Rightarrow> 'x \<Rightarrow> error + real list"
  zero_grad :: "'m \<Rightarrow> 'm"
  backward_step :: "'m \<Rightarrow> 'x \<Rightarrow> (real list \<Rightarrow> error + metric) \<Rightarrow> 'm"
  scheduler_step :: "'m \<Rightarrow> 'm"
  bert_state_dict :: "'m \<Rightarrow> 'b"
  bert_load_state_dict :: "'b \<Rightarrow> 'm \<Rightarrow> (error + unit) \<times> 'm"
  torch_save :: "'b \<Rightarrow> 'f"
  torch_load :: "'f \<Rightarrow> error + 'b"

text \<open>
  The fields of a \<open>Pretrain\<close> object that its methods read or write. A data loader is
  the list of its batches, each an input with its target ratings. \<open>save_dir\<close> is the
  content of the directory \<open>_save_dir\<close>: every \<open>torch.save\<close> so far with the step that
  names the file, the latest first; a file is read as the latest write under its name.
\<close>

record ('m, 'b, 'f, 'x) pretrain =
  model :: 'm
  normalize_loss :: bool
  best_valid_rmse_loss :: real
  best_step :: int
  train_step :: int
  pretraining_train_loader :: "('x \<times> real list) list"
  pretraining_valid_loader :: "('x \<times> real list) list"
  save_dir :: "(int \<times> 'f) list"

definition SAVE_INTERVAL :: nat where "SAVE_INTERVAL = 100"
definition LOG_INTERVAL :: nat where "LOG_INTERVAL = 1"
definition VAL_INTERVAL :: nat where "VAL_INTERVAL = 10"

text \<open>
  The batch loop of \<open>epoch_step\<close>, with the three lists it appends to. An exception
  leaves the loop with the object as the batches before it left it.
\<close>

fun epoch_loop ::
  "('m, 'b, 'f, 'x) collaborators \<Rightarrow> bool \<Rightarrow> ('x \<times> real list) list \<Rightarrow>
   metric list \<times> metric list \<times> metric list \<Rightarrow> ('m, 'b, 'f, 'x) pretrain \<Rightarrow>
   (error + metric list \<times> metric list \<times> metric list) \<times> ('m, 'b, 'f, 'x) pretrain" where
  "epoch_loop C train [] acc s = (Inr acc, s)"
| "epoch_loop C train ((x_inputs, target_rating) # rest) (mse_losses, mae_losses, rmse_losses) s =
     (let s1 = s\<lparr>model := zero_grad C (model s)\<rparr> in
      case model_call C (model s1) x_inputs of
        Inl e \<Rightarrow> (Inl e, s1)
      | Inr outputs \<Rightarrow>
          (case batch_losses (normalize_loss s1) outputs target_rating of
             Inl e \<Rightarrow> (Inl e, s1)
           | Inr (loss, mse_loss, mae_loss, rmse_loss) \<Rightarrow>
               (let s2 = (if train
                          then s1\<lparr>model := backward_step C (model s1) x_inputs
                                              (\<lambda>outputs.
                                                 bind_err (batch_losses (normalize_loss s1) outputs
                                                             target_rating)
                                                   (\<lambda>(loss, mse_loss, mae_loss, rmse_loss).
                                                      Inr loss))\<rparr>
                          else s1)
                in epoch_loop C train rest
                     (mse_losses @ [mse_loss], mae_losses @ [mae_loss],
                      rmse_losses @ [rmse_loss]) s2)))"

definition epoch_step ::
  "('m, 'b, 'f, 'x) collaborators \<Rightarrow> ('x \<times> real list) list \<Rightarrow> bool \<Rightarrow> ('m, 'b, 'f, 'x) pretrain \<Rightarrow>
   (error + metric \<times> metric \<times> metric) \<times> ('m, 'b, 'f, 'x) pretrain" where
  "epoch_step C data_loader train s =
     (case epoch_loop C train data_loader ([], [], []) s of
        (Inl e, s') \<Rightarrow> (Inl e, s')
      | (Inr (mse_losses, mae_losses, rmse_losses), s') \<Rightarrow>
          (let mae_loss = np_mean mae_losses;
               mse_loss = np_mean mse_losses;
               rmse_loss = np_mean rmse_losses
           in (Inr (mse_loss, mae_loss, rmse_loss), s')))"

definition save_model :: "('m, 'b, 'f, 'x) collaborators \<Rightarrow> ('m, 'b, 'f, 'x) pretrain \<Rightarrow> ('m, 'b, 'f, 'x) pretrain" where
  "save_model C s =
     s\<lparr>save_dir := (train_step s, torch_save C (bert_state_dict C (model s))) # save_dir s\<rparr>"

text \<open>A float compared with a float that may be NaN: every comparison with NaN is false.\<close>

definition float_gt :: "real \<Rightarrow> metric \<Rightarrow> bool" where
  "float_gt a m = (case m of None \<Rightarrow> False | Some b \<Rightarrow> a > b)"

text \<open>
  One iteration of the loop of \<open>train\<close> (lines 117 to 151). Printing and the summary
  writer are left out. The triple bound at line 117 is the one read at line 143: the call at
  line 133 is a statement, and its value is dropped.
\<close>

definition train_epoch ::
  "('m, 'b, 'f, 'x) collaborators \<Rightarrow> nat \<Rightarrow> ('m, 'b, 'f, 'x) pretrain \<Rightarrow>
   (error + unit) \<times> ('m, 'b, 'f, 'x) pretrain" where
  "train_epoch C epoch s =
     (case epoch_step C (pretraining_train_loader s) True s of
        (Inl e, s1) \<Rightarrow> (Inl e, s1)
      | (Inr (mse_loss, mae_loss, rmse_loss), s1) \<Rightarrow>
          (case (if epoch mod VAL_INTERVAL = 0 then
                   (case epoch_step C (pretraining_valid_loader s1) False s1 of
                      (Inl e, s2) \<Rightarrow> (Inl e, s2)
                    | (Inr _, s2) \<Rightarrow>
                        (Inr (),
                         if float_gt (best_valid_rmse_loss s2) rmse_loss
                         then save_model C
                                (s2\<lparr>best_valid_rmse_loss := the rmse_loss,
                                    best_step := int epoch\<rparr>)
                         else s2))
                 else (Inr (), s1)) of
             (Inl e, s3) \<Rightarrow> (Inl e, s3)
           | (Inr _, s3) \<Rightarrow>
               (Inr (), s3\<lparr>train_step := train_step s3 + 1,
                           model := scheduler_step C (model s3)\<rparr>)))"

fun train_loop ::
  "('m, 'b, 'f, 'x) collaborators \<Rightarrow> nat list \<Rightarrow> ('m, 'b, 'f, 'x) pretrain \<Rightarrow>
   (error + unit) \<times> ('m, 'b, 'f, 'x) pretrain" where
  "train_loop C [] s = (Inr (), s)"
| "train_loop C (epoch # rest) s =
     (case train_epoch C epoch s of
        (Inl e, s') \<Rightarrow> (Inl e, s')
      | (Inr _, s') \<Rightarrow> train_loop C rest s')"

definition train ::
  "('m, 'b, 'f, 'x) collaborators \<Rightarrow> int \<Rightarrow> ('m, 'b, 'f, 'x) pretrain \<Rightarrow>
   (error + unit) \<times> ('m, 'b, 'f, 'x) pretrain" where
  "train C epochs s = train_loop C [0..<nat epochs] s"

text \<open>
  \<open>load\<close>: the file named by the step is read and its state dict restored into
  \<open>model.bert\<close>. Every exception of the \<open>try\<close> block is raised again as a
  \<open>ValueError\<close>: the one of \<open>torch.load\<close> for a file that is not there, the one of
  \<open>torch.load\<close> for a file that it cannot read, and the one of \<open>load_state_dict\<close>,
  after which the model keeps what had been copied into it.
\<close>

definition load ::
  "('m, 'b, 'f, 'x) collaborators \<Rightarrow> int \<Rightarrow> ('m, 'b, 'f, 'x) pretrain \<Rightarrow>
   (error + unit) \<times> ('m, 'b, 'f, 'x) pretrain" where
  "load C checkpoint_step s =
     (case map_of (save_dir s) checkpoint_step of
        None \<Rightarrow> (Inl ValueError, s)
      | Some file \<Rightarrow>
          (case torch_load C file of
             Inl e \<Rightarrow> (Inl ValueError, s)
           | Inr state_dict \<Rightarrow>
               (case bert_load_state_dict C state_dict (model s) of
                  (Inl e, m) \<Rightarrow> (Inl ValueError, s\<lparr>model := m\<rparr>)
                | (Inr _, m) \<Rightarrow> (Inr (), s\<lparr>model := m\<rparr>))))"

text \<open>The fields \<open>__init__\<close> sets itself (lines 52, 53 and 61).\<close>

definition Pretrain_init ::
  "'m \<Rightarrow> bool \<Rightarrow> ('x \<times> real list) list \<Rightarrow> ('x \<times> real list) list \<Rightarrow> (int \<times> 'f) list \<Rightarrow>
   ('m, 'b, 'f, 'x) pretrain" where
  "Pretrain_init m norm_flag train_loader valid_loader dir =
     \<lparr>model = m, normalize_loss = norm_flag, best_valid_rmse_loss = 987654321,
      best_step = 0, train_step = 0, pretraining_train_loader = train_loader,
      pretraining_valid_loader = valid_loader, save_dir = dir\<rparr>"

text \<open>Every per-batch MSE that is a number is non-negative: the invariant of the batch loop.\<close>

definition mse_ok :: "metric list \<Rightarrow> bool" where
  "mse_ok ms = (\<forall>v. Some v \<in> set ms \<longrightarrow> 0 \<le> v)"

subsection \<open>A small trainer to run\<close>

text \<open>
  A model that returns its input as its output, trained by counting optimizer steps; its
  state dict is that count. With it a batch is a pair of the outputs and the targets.
\<close>

definition echo_model :: "(nat, nat, nat, real list) collaborators" where
  "echo_model = \<lparr>model_call = (\<lambda>m x. Inr x), zero_grad = (\<lambda>m. m),
     backward_step = (\<lambda>m x l. Suc m), scheduler_step = (\<lambda>m. m),
     bert_state_dict = (\<lambda>m. m), bert_load_state_dict = (\<lambda>b m. (Inr (), b)),
     torch_save = (\<lambda>b. b), torch_load = Inr\<rparr>"

definition two_batches :: "(real list \<times> real list) list" where
  "two_batches = [([0], [0]), ([2], [0])]"

definition fresh_trainer :: "(nat, nat, nat, real list) pretrain" where
  "fresh_trainer = Pretrain_init 0 False [([1], [0])] [([2], [0])] []"

text \<open>
  A model that overfits: its input is a pair, and it returns the first component during the
  first ten optimizer steps and the second one afterwards. On the training batch its error
  falls from 2 to 1, on the validation batch it rises from 1 to 2.
\<close>

definition switching_model :: "(nat, nat, nat, real \<times> real) collaborators" where
  "switching_model = \<lparr>model_call = (\<lambda>m (a, c). Inr [if m < 10 then a else c]), zero_grad = (\<lambda>m. m),
     backward_step = (\<lambda>m x l. Suc m), scheduler_step = (\<lambda>m. m),
     bert_state_dict = (\<lambda>m. m), bert_load_state_dict = (\<lambda>b m. (Inr (), b)),
     torch_save = (\<lambda>b. b), torch_load = Inr\<rparr>"

definition overfitting_trainer :: "(nat, nat, nat, real \<times> real) pretrain" where
  "overfitting_trainer = Pretrain_init 0 False [((2, 1), [0])] [((1, 2), [0])] []"



text \<open>
  A model of two parameters whose state dict has two keys. \<open>load_state_dict\<close> copies the
  first entry and raises when the second one is missing, as for a file that another
  architecture has written.
\<close>

definition two_key_model ::
  "(nat \<times> nat, nat \<times> nat option, nat \<times> nat option, real list) collaborators" where
  "two_key_model =
     \<lparr>model_call = (\<lambda>m x. Inr x), zero_grad = (\<lambda>m. m),
      backward_step = (\<lambda>m x l. m), scheduler_step = (\<lambda>m. m),
      bert_state_dict = (\<lambda>(a, b). (a, Some b)),
      bert_load_state_dict =
        (\<lambda>(a, entry) (m1, m2).
           case entry of None \<Rightarrow> (Inl RuntimeError, (a, m2)) | Some b \<Rightarrow> (Inr (), (a, b))),
      torch_save = (\<lambda>sd. sd), torch_load = Inr\<rparr>"

definition foreign_checkpoint_trainer ::
  "(nat \<times> nat, nat \<times> nat option, nat \<times> nat option, real list) pretrain" where
  "foreign_checkpoint_trainer = Pretrain_init (1, 1) False [] [] [(3, (9, None))]"

section \<open>Tensors\<close>

text \<open>
  A tensor is its shape and its entries in row-major order. A well-formed tensor has as
  many entries as its shape says.
\<close>

record 'a tensor =
  shape :: "nat list"
  elems :: "'a list"

definition wf_tensor :: "'a tensor \<Rightarrow> bool" where
  "wf_tensor T = (length (elems T) = prod_list (shape T))"

text \<open>The \<open>n\<close> consecutive rows of \<open>k\<close> entries each of a list of entries.\<close>

definition rows :: "nat \<Rightarrow> nat \<Rightarrow> 'a list \<Rightarrow> 'a list list" where
  "rows n k xs = map (\<lambda>i. take k (drop (i * k) xs)) [0..<n]"

text \<open>\<open>x == 0\<close>, \<open>tensor.squeeze()\<close> (every dimension of size 1 goes) and \<open>torch.abs\<close>.\<close>

definition eq_zero :: "'a::zero tensor \<Rightarrow> bool tensor" where
  "eq_zero x = \<lparr>shape = shape x, elems = map (\<lambda>v. v = 0) (elems x)\<rparr>"

definition squeeze :: "'a tensor \<Rightarrow> 'a tensor" where
  "squeeze T = \<lparr>shape = filter (\<lambda>d. d \<noteq> 1) (shape T), elems = elems T\<rparr>"

definition torch_abs :: "real tensor \<Rightarrow> real tensor" where
  "torch_abs T = \<lparr>shape = shape T, elems = map abs (elems T)\<rparr>"

text \<open>
  The coordinates of a row-major position in a shape, and the position of coordinates.
\<close>

fun unravel :: "nat list \<Rightarrow> nat \<Rightarrow> nat list" where
  "unravel [] idx = []"
| "unravel (d # ds) idx = idx div prod_list ds # unravel ds (idx mod prod_list ds)"

fun ravel :: "nat list \<Rightarrow> nat list \<Rightarrow> nat" where
  "ravel (d # ds) (c # cs) = c * prod_list ds + ravel ds cs"
| "ravel _ _ = 0"

text \<open>
  \<open>self.masked_fill_(mask, value)\<close> writes into \<open>self\<close>, so the mask must broadcast to
  the shape of \<open>self\<close> as it is: the mask has no more dimensions than \<open>self\<close>, and each of
  its dimensions, aligned at the right, is 1 or the one of \<open>self\<close>. Otherwise the call
  raises. The entry of \<open>self\<close> at a position is replaced where the mask, read at the
  coordinates of the position (0 along a dimension of size 1 of the mask), is true.
\<close>

definition broadcastable_to :: "nat list \<Rightarrow> nat list \<Rightarrow> bool" where
  "broadcastable_to mask_shape self_shape =
     (length mask_shape \<le> length self_shape \<and>
      list_all2 (\<lambda>m d. m = 1 \<or> m = d) mask_shape
        (drop (length self_shape - length mask_shape) self_shape))"

definition mask_at :: "bool tensor \<Rightarrow> nat list \<Rightarrow> nat \<Rightarrow> bool" where
  "mask_at msk self_shape idx =
     (elems msk !
        ravel (shape msk)
          (map2 (\<lambda>m c. if m = 1 then 0 else c) (shape msk)
             (drop (length self_shape - length (shape msk)) (unravel self_shape idx))))"

definition masked_fill_inplace :: "real tensor \<Rightarrow> bool tensor \<Rightarrow> real \<Rightarrow> error + real tensor" where
  "masked_fill_inplace self msk v =
     (if broadcastable_to (shape msk) (shape self)
      then Inr \<lparr>shape = shape self,
                elems = map (\<lambda>idx. if mask_at msk (shape self) idx then v else elems self ! idx)
                          [0..<length (elems self)]\<rparr>
      else Inl RuntimeError)"

text \<open>
  \<open>F.softmax(input, dim=d)\<close> for a dimension \<open>d \<ge> 0\<close>: a dimension that the tensor does
  not have raises (a tensor with no dimension counts as having one). Each entry is its
  exponential divided by the sum of the exponentials of the entries that differ from it
  in the coordinate \<open>d\<close> only.
\<close>

definition softmax :: "real tensor \<Rightarrow> nat \<Rightarrow> error + real tensor" where
  "softmax input d =
     (if d \<ge> max 1 (length (shape input)) then Inl IndexError
      else
        (let n = (if shape input = [] then 1 else shape input ! d);
             inner = prod_list (drop (d + 1) (shape input));
             e = elems input
         in Inr \<lparr>shape = shape input,
                 elems = map (\<lambda>idx.
                            exp (e ! idx) /
                            (\<Sum>k\<leftarrow>[0..<n]. exp (e ! (idx - ((idx div inner) mod n) * inner + k * inner))))
                          [0..<length e]\<rparr>))"

section \<open>Library layers\<close>

text \<open>\<open>nn.Linear(in_features, out_features, bias=True)\<close>, applied along the last dimension.\<close>

record nn_Linear =
  in_features :: nat
  out_features :: nat
  weight :: "real list list"
  bias :: "real list"

definition dot :: "real list \<Rightarrow> real list \<Rightarrow> real" where
  "dot w x = sum_list (map2 (*) w x)"

definition Linear_forward :: "nn_Linear \<Rightarrow> real tensor \<Rightarrow> error + real tensor" where
  "Linear_forward L x =
     (if shape x = [] \<or> last (shape x) \<noteq> in_features L then Inl RuntimeError
      else Inr \<lparr>shape = butlast (shape x) @ [out_features L],
                elems = concat (map (\<lambda>r. map2 (\<lambda>w b. dot w r + b) (weight L) (bias L))
                                  (rows (prod_list (butlast (shape x))) (in_features L) (elems x)))\<rparr>)"

definition wf_Linear :: "nn_Linear \<Rightarrow> bool" where
  "wf_Linear L =
     (length (weight L) = out_features L \<and> length (bias L) = out_features L \<and>
      list_all (\<lambda>w. length w = in_features L) (weight L))"

definition ReLU :: "real tensor \<Rightarrow> real tensor" where
  "ReLU T = \<lparr>shape = shape T, elems = map (max 0) (elems T)\<rparr>"

text \<open>\<open>nn.Embedding\<close>: an index outside the table raises.\<close>

record nn_Embedding =
  num_embeddings :: nat
  embedding_dim :: nat
  table :: "real list list"

definition Embedding_forward :: "nn_Embedding \<Rightarrow> int tensor \<Rightarrow> error + real tensor" where
  "Embedding_forward E x =
     (if list_ex (\<lambda>i. i < 0 \<or> int (num_embeddings E) \<le> i) (elems x) then Inl IndexError
      else Inr \<lparr>shape = shape x @ [embedding_dim E],
                elems = concat (map (\<lambda>i. table E ! nat i) (elems x))\<rparr>)"

text \<open>
  Indexing an \<open>nn.ModuleList\<close> by an integer: as for a Python list, a negative index counts
  from the end, and an index outside \<open>[-len, len)\<close> raises \<open>IndexError\<close>.
\<close>

definition module_list_get :: "'a list \<Rightarrow> int \<Rightarrow> error + 'a" where
  "module_list_get ms idx =
     (if \<not> (- int (length ms) \<le> idx \<and> idx < int (length ms)) then Inl IndexError
      else Inr (ms ! nat (if idx < 0 then idx + int (length ms) else idx)))"

section \<open>models/meta\_loss\_model.py\<close>

subsection \<open>MetaStepLossNetwork\<close>

text \<open>
  A layer of the module list is \<open>nn.Sequential(nn.Linear, nn.ReLU)\<close> or a bare
  \<open>nn.Linear\<close>. The constructor draws the initial weights at random: \<open>fresh i m n\<close> is
  the layer that its \<open>i\<close>-th call of \<open>nn.Linear(m, n)\<close> returns.
\<close>

datatype layer = Linear_ReLU nn_Linear | Linear_only nn_Linear

record MetaStepLossNetwork =
  layers :: "layer list"

definition MetaStepLossNetwork_init ::
  "nat \<Rightarrow> int \<Rightarrow> (nat \<Rightarrow> nat \<Rightarrow> nat \<Rightarrow> nn_Linear) \<Rightarrow> MetaStepLossNetwork" where
  "MetaStepLossNetwork_init num_loss_hidden num_loss_layers fresh =
     \<lparr>layers = map (\<lambda>i. Linear_ReLU (fresh i num_loss_hidden num_loss_hidden))
                  [0..<nat (num_loss_layers - 1)]
               @ [Linear_only (fresh (nat (num_loss_layers - 1)) num_loss_hidden 1)]\<rparr>"

fun layer_forward :: "layer \<Rightarrow> real tensor \<Rightarrow> error + real tensor" where
  "layer_forward (Linear_ReLU L) x = bind_err (Linear_forward L x) (\<lambda>y. Inr (ReLU y))"
| "layer_forward (Linear_only L) x = Linear_forward L x"

fun layers_forward :: "layer list \<Rightarrow> real tensor \<Rightarrow> error + real tensor" where
  "layers_forward [] x = Inr x"
| "layers_forward (layer # rest) x = bind_err (layer_forward layer x) (layers_forward rest)"

definition MetaStepLossNetwork_forward :: "MetaStepLossNetwork \<Rightarrow> real tensor \<Rightarrow> error + real tensor" where
  "MetaStepLossNetwork_forward net x = layers_forward (layers net) x"

subsection \<open>MetaLossNetwork\<close>

record MetaLossNetwork =
  loss_layers :: "MetaStepLossNetwork list"
  use_step_loss :: bool

text \<open>\<open>fresh j\<close> supplies the random layers of the \<open>j\<close>-th step network that is constructed.\<close>

definition MetaLossNetwork_init ::
  "int \<Rightarrow> nat \<Rightarrow> int \<Rightarrow> bool \<Rightarrow> (nat \<Rightarrow> nat \<Rightarrow> nat \<Rightarrow> nat \<Rightarrow> nn_Linear) \<Rightarrow> MetaLossNetwork" where
  "MetaLossNetwork_init num_inner_steps num_loss_hidden num_loss_layers step_loss fresh =
     \<lparr>loss_layers =
        (if step_loss
         then map (\<lambda>j. MetaStepLossNetwork_init num_loss_hidden num_loss_layers (fresh j))
                [0..<nat num_inner_steps]
         else [MetaStepLossNetwork_init num_loss_hidden num_loss_layers (fresh 0)]),
      use_step_loss = step_loss\<rparr>"

definition MetaLossNetwork_forward :: "MetaLossNetwork \<Rightarrow> real tensor \<Rightarrow> int \<Rightarrow> error + real tensor" where
  "MetaLossNetwork_forward net x step =
     (if use_step_loss net
      then bind_err (module_list_get (loss_layers net) step)
             (\<lambda>m. MetaStepLossNetwork_forward m x)
      else bind_err (module_list_get (loss_layers net) 0)
             (\<lambda>m. MetaStepLossNetwork_forward m x))"

subsection \<open>MetaTaskLstmNetwork\<close>

text \<open>
  \<open>p.repeat(b, 1, 1)\<close> copies the entries of \<open>p\<close>, read with three dimensions, \<open>b\<close> times
  along the first one; \<open>permute(1, 0, 2)\<close> exchanges the first two of three dimensions;
  \<open>contiguous()\<close> changes the memory layout only.
\<close>

definition repeat_b11 :: "real tensor \<Rightarrow> nat \<Rightarrow> error + real tensor" where
  "repeat_b11 p b =
     (if length (shape p) > 3 then Inl RuntimeError
      else (let sh = replicate (3 - length (shape p)) 1 @ shape p
            in Inr \<lparr>shape = (b * hd sh) # tl sh, elems = concat (replicate b (elems p))\<rparr>))"

definition permute_102 :: "real tensor \<Rightarrow> error + real tensor" where
  "permute_102 T =
     (case shape T of
        [a, b, c] \<Rightarrow>
          Inr \<lparr>shape = [b, a, c],
               elems = concat (map (\<lambda>j. concat (map (\<lambda>i. take c (drop ((i * b + j) * c) (elems T)))
                                                 [0..<a]))
                               [0..<b])\<rparr>
      | _ \<Rightarrow> Inl RuntimeError)"

definition contiguous :: "real tensor \<Rightarrow> real tensor" where
  "contiguous T = T"

text \<open>
  The recurrent layer \<open>nn.LSTM\<close> with its weights is a parameter of the network: a
  function from the embedded batch and the pair of initial states to the outputs of the
  last layer (the final states that it also returns are not used).
\<close>

record MetaTaskLstmNetwork =
  embedding :: nn_Embedding
  h0 :: "real tensor"
  c0 :: "real tensor"
  lstm :: "real tensor \<Rightarrow> real tensor \<times> real tensor \<Rightarrow> error + real tensor"
  out_net :: nn_Linear
  use_softmax :: bool

text \<open>Lines 66 and 67: a stored initial state, replicated for a batch of \<open>b\<close> sequences.\<close>

definition initial_state :: "real tensor \<Rightarrow> nat \<Rightarrow> error + real tensor" where
  "initial_state p b =
     bind_err (repeat_b11 p b) (\<lambda>r. bind_err (permute_102 r) (\<lambda>q. Inr (contiguous q)))"

text \<open>
  Lines 62 to 68 of \<open>forward\<close>: the mask of the token ids and the output of the recurrent
  layer. The token ids are integers, which \<open>x.long()\<close> leaves as they are.
\<close>

definition lstm_encode :: "MetaTaskLstmNetwork \<Rightarrow> int tensor \<Rightarrow> error + (bool tensor \<times> real tensor)" where
  "lstm_encode net x =
     (let msk = eq_zero x in
      bind_err (Embedding_forward (embedding net) x) (\<lambda>e.
        case shape e of
          [b, t, _] \<Rightarrow>
            bind_err (initial_state (h0 net) b) (\<lambda>h.
            bind_err (initial_state (c0 net) b) (\<lambda>c.
            bind_err (lstm net e (h, c)) (\<lambda>lstm_out. Inr (msk, lstm_out))))
        | _ \<Rightarrow> Inl ValueError))"

text \<open>
  \<open>forward\<close> returns its result and the module after the call. The one operation that
  writes in place, \<open>masked_fill_\<close>, writes into the tensor that \<open>out_net\<close> has just
  returned.
\<close>

definition MetaTaskLstmNetwork_forward ::
  "MetaTaskLstmNetwork \<Rightarrow> int tensor \<Rightarrow> (error + real tensor) \<times> MetaTaskLstmNetwork" where
  "MetaTaskLstmNetwork_forward net x =
     (bind_err (lstm_encode net x) (\<lambda>(msk, lstm_out).
        if use_softmax net then
          bind_err (Linear_forward (out_net net) lstm_out) (\<lambda>out.
          bind_err (masked_fill_inplace (squeeze out) msk (- 98765)) (\<lambda>filled.
          softmax filled 1))
        else
          bind_err (Linear_forward (out_net net) lstm_out) (\<lambda>out.
          Inr (torch_abs (squeeze out)))),
      net)"

text \<open>The value of \<open>self.out_net(lstm_out)\<close> in \<open>forward\<close>: one score for each position.\<close>

definition lstm_scores :: "MetaTaskLstmNetwork \<Rightarrow> int tensor \<Rightarrow> error + real tensor" where
  "lstm_scores net x =
     bind_err (lstm_encode net x) (\<lambda>(msk, lstm_out). Linear_forward (out_net net) lstm_out)"

text \<open>
  What the constructor establishes: the vocabulary of 7 tokens, the shapes of the two
  initial states, a head with one output, and a recurrent layer that returns one vector of
  the size the head reads for each position of each sequence.
\<close>

definition wf_MetaTaskLstmNetwork :: "MetaTaskLstmNetwork \<Rightarrow> bool" where
  "wf_MetaTaskLstmNetwork net =
     (num_embeddings (embedding net) = 7 \<and>
      length (shape (h0 net)) = 2 \<and> wf_tensor (h0 net) \<and>
      length (shape (c0 net)) = 2 \<and> wf_tensor (c0 net) \<and>
      hd (shape (h0 net)) = hd (shape (c0 net)) \<and>
      last (shape (h0 net)) = in_features (out_net net) \<and>
      out_features (out_net net) = 1 \<and> wf_Linear (out_net net) \<and>
      (\<forall>e st y b t d. shape e = [b, t, d] \<and> lstm net e st = Inr y \<longrightarrow>
         wf_tensor y \<and> shape y = [b, t, in_features (out_net net)]))"

definition MetaTaskLstmNetwork_init ::
  "nat \<Rightarrow> nat \<Rightarrow> nat \<Rightarrow> nat \<Rightarrow> bool \<Rightarrow> real list list \<Rightarrow> real list \<Rightarrow> real list \<Rightarrow>
   (nat \<Rightarrow> real tensor \<Rightarrow> real tensor \<times> real tensor \<Rightarrow> error + real tensor) \<Rightarrow>
   (nat \<Rightarrow> nat \<Rightarrow> nn_Linear) \<Rightarrow> MetaTaskLstmNetwork" where
  "MetaTaskLstmNetwork_init input_size lstm_hidden num_lstm_layers lstm_out softmax_flag
       fresh_table fresh_h0 fresh_c0 fresh_lstm fresh_linear =
     (let lstm_out_size = (if lstm_out = 0 then lstm_hidden else lstm_out) in
      \<lparr>embedding = \<lparr>num_embeddings = 7, embedding_dim = input_size, table = fresh_table\<rparr>,
       h0 = \<lparr>shape = [num_lstm_layers, lstm_out_size], elems = fresh_h0\<rparr>,
       c0 = \<lparr>shape = [num_lstm_layers, lstm_hidden], elems = fresh_c0\<rparr>,
       lstm = fresh_lstm lstm_out_size,
       out_net = fresh_linear lstm_out_size 1,
       use_softmax = softmax_flag\<rparr>)"

text \<open>
  Lines 70 to 73 of \<open>forward\<close>, from the mask and the output of the recurrent layer.
\<close>

definition forward_tail :: "MetaTaskLstmNetwork \<Rightarrow> bool tensor \<Rightarrow> real tensor \<Rightarrow> error + real tensor" where
  "forward_tail net msk lstm_out =
     (if use_softmax net then
        bind_err (Linear_forward (out_net net) lstm_out) (\<lambda>out.
        bind_err (masked_fill_inplace (squeeze out) msk (- 98765)) (\<lambda>filled.
        softmax filled 1))
      else
        bind_err (Linear_forward (out_net net) lstm_out) (\<lambda>out.
        Inr (torch_abs (squeeze out))))"

subsection \<open>MetaTaskLstmNetwork, with the storages of its tensors\<close>

text \<open>
  The same \<open>forward\<close>, with the storages that the call can reach made explicit, to follow
  what it writes. A storage holds the entries of a tensor; a tensor object is a handle,
  the storage it reads and its shape, so that a view is a handle on the storage of another
  tensor. The call starts with the storages of the two stored initial states, at the
  addresses 0 and 1. An operation of the library that returns a new tensor adds a
  storage; \<open>squeeze\<close> returns a view; \<open>permute(1, 0, 2).contiguous()\<close> returns a view
  when the exchanged dimensions leave the order of the entries as it is (one of the two has
  size at most 1, or there is no entry) and a new tensor otherwise; \<open>masked_fill_\<close>
  writes into the storage of the tensor it is called on.
\<close>

type_synonym storages = "real list list"

record handle =
  cell :: nat
  dims :: "nat list"

definition deref :: "storages \<Rightarrow> handle \<Rightarrow> real tensor" where
  "deref st h = \<lparr>shape = dims h, elems = st ! cell h\<rparr>"

definition new_tensor :: "error + real tensor \<Rightarrow> storages \<Rightarrow> (error + handle) \<times> storages" where
  "new_tensor r st =
     (case r of
        Inl e \<Rightarrow> (Inl e, st)
      | Inr T \<Rightarrow> (Inr \<lparr>cell = length st, dims = shape T\<rparr>, st @ [elems T]))"

definition bind_st ::
  "(storages \<Rightarrow> (error + 'a) \<times> storages) \<Rightarrow> ('a \<Rightarrow> storages \<Rightarrow> (error + 'b) \<times> storages) \<Rightarrow>
   storages \<Rightarrow> (error + 'b) \<times> storages" where
  "bind_st m f st = (case m st of (Inl e, st') \<Rightarrow> (Inl e, st') | (Inr v, st') \<Rightarrow> f v st')"

definition repeat_b11_st :: "handle \<Rightarrow> nat \<Rightarrow> storages \<Rightarrow> (error + handle) \<times> storages" where
  "repeat_b11_st p b st = new_tensor (repeat_b11 (deref st p) b) st"

definition permute_102_contiguous_st :: "handle \<Rightarrow> storages \<Rightarrow> (error + handle) \<times> storages" where
  "permute_102_contiguous_st h st =
     (case dims h of
        [a, b, c] \<Rightarrow>
          if a \<le> 1 \<or> b \<le> 1 \<or> c = 0 then (Inr \<lparr>cell = cell h, dims = [b, a, c]\<rparr>, st)
          else new_tensor (permute_102 (deref st h)) st
      | _ \<Rightarrow> (Inl RuntimeError, st))"

definition squeeze_view :: "handle \<Rightarrow> handle" where
  "squeeze_view h = \<lparr>cell = cell h, dims = filter (\<lambda>d. d \<noteq> 1) (dims h)\<rparr>"

definition masked_fill_st ::
  "handle \<Rightarrow> bool tensor \<Rightarrow> real \<Rightarrow> storages \<Rightarrow> (error + handle) \<times> storages" where
  "masked_fill_st h msk v st =
     (case masked_fill_inplace (deref st h) msk v of
        Inl e \<Rightarrow> (Inl e, st)
      | Inr T \<Rightarrow> (Inr h, st[cell h := elems T]))"

text \<open>
  \<open>forward\<close> on the storages. The module after the call has the stored initial states
  that the storages 0 and 1 hold when the call ends or raises.
\<close>

definition forward_st_body ::
  "MetaTaskLstmNetwork \<Rightarrow> int tensor \<Rightarrow> handle \<Rightarrow> handle \<Rightarrow> storages \<Rightarrow>
   (error + handle) \<times> storages" where
  "forward_st_body net x p_h0 p_c0 =
     (let msk = eq_zero x in
      bind_st (new_tensor (Embedding_forward (embedding net) x)) (\<lambda>e.
        case dims e of
          [b, t, _] \<Rightarrow>
            bind_st (bind_st (repeat_b11_st p_h0 b) permute_102_contiguous_st) (\<lambda>h.
            bind_st (bind_st (repeat_b11_st p_c0 b) permute_102_contiguous_st) (\<lambda>c.
            bind_st (\<lambda>st. new_tensor (lstm net (deref st e) (deref st h, deref st c)) st)
              (\<lambda>lstm_out.
                 if use_softmax net then
                   bind_st (\<lambda>st. new_tensor (Linear_forward (out_net net) (deref st lstm_out)) st)
                     (\<lambda>out.
                   bind_st (masked_fill_st (squeeze_view out) msk (- 98765)) (\<lambda>filled.
                   (\<lambda>st. new_tensor (softmax (deref st filled) 1) st)))
                 else
                   bind_st (\<lambda>st. new_tensor (Linear_forward (out_net net) (deref st lstm_out)) st)
                     (\<lambda>out.
                   (\<lambda>st. new_tensor (Inr (torch_abs (deref st (squeeze_view out)))) st)))))
        | _ \<Rightarrow> (\<lambda>st. (Inl ValueError, st))))"

definition MetaTaskLstmNetwork_forward_st ::
  "MetaTaskLstmNetwork \<Rightarrow> int tensor \<Rightarrow> (error + real tensor) \<times> MetaTaskLstmNetwork" where
  "MetaTaskLstmNetwork_forward_st net x =
     (let p_h0 = \<lparr>cell = 0, dims = shape (h0 net)\<rparr>;
          p_c0 = \<lparr>cell = 1, dims = shape (c0 net)\<rparr>;
          (r, st) = forward_st_body net x p_h0 p_c0 [elems (h0 net), elems (c0 net)]
      in (map_sum id (deref st) r, net\<lparr>h0 := deref st p_h0, c0 := deref st p_c0\<rparr>))"

text \<open>
  For the proofs: an operation keeps the storages 0 and 1 and returns a result with a
  property; a handle holds a value in the storages; the storages have grown; and an
  operation on the storages computes the result of an operation on values.
\<close>

definition keeps :: "('a \<Rightarrow> bool) \<Rightarrow> (storages \<Rightarrow> (error + 'a) \<times> storages) \<Rightarrow> bool" where
  "keeps Q m =
     (\<forall>st. 2 \<le> length st \<longrightarrow>
        (case m st of (r, st') \<Rightarrow>
           2 \<le> length st' \<and> take 2 st' = take 2 st \<and> (\<forall>v. r = Inr v \<longrightarrow> Q v)))"

definition holds :: "storages \<Rightarrow> handle \<Rightarrow> real tensor \<Rightarrow> bool" where
  "holds st h T = (cell h < length st \<and> deref st h = T)"

definition tracks :: "storages \<Rightarrow> (handle \<times> real tensor) list \<Rightarrow> bool" where
  "tracks st A = list_all (\<lambda>(h, T). holds st h T) A"

definition sim ::
  "bool \<Rightarrow> (handle \<times> real tensor) list \<Rightarrow> (storages \<Rightarrow> (error + handle) \<times> storages) \<Rightarrow>
   error + real tensor \<Rightarrow> bool" where
  "sim grows A m r =
     (\<forall>st. tracks st A \<longrightarrow>
        (case m st of (r', st') \<Rightarrow>
           (grows \<longrightarrow> (\<exists>ys. st' = st @ ys)) \<and>
           (case r of
              Inl e \<Rightarrow> r' = Inl e
            | Inr T \<Rightarrow> (\<exists>h. r' = Inr h \<and> holds st' h T))))"

subsection \<open>MetaTaskMLPNetwork\<close>

text \<open>\<open>mlp\<close> is \<open>nn.Sequential(nn.Linear, nn.ReLU(), nn.Linear)\<close>, kept as its two linear layers.\<close>

record MetaTaskMLPNetwork =
  mlp :: "nn_Linear \<times> nn_Linear"
  mlp_use_softmax :: bool

definition mlp_forward :: "nn_Linear \<times> nn_Linear \<Rightarrow> real tensor \<Rightarrow> error + real tensor" where
  "mlp_forward m x =
     bind_err (Linear_forward (fst m) x) (\<lambda>a. Linear_forward (snd m) (ReLU a))"

definition MetaTaskMLPNetwork_forward :: "MetaTaskMLPNetwork \<Rightarrow> real tensor \<Rightarrow> error + real tensor" where
  "MetaTaskMLPNetwork_forward net x =
     (let msk = eq_zero x in
      if mlp_use_softmax net then
        bind_err (mlp_forward (mlp net) x) (\<lambda>out.
        bind_err (masked_fill_inplace (squeeze out) msk (- 98765)) (\<lambda>filled.
        softmax filled 1))
      else
        bind_err (mlp_forward (mlp net) x) (\<lambda>out. Inr (torch_abs (squeeze out))))"

text \<open>What the constructor establishes: a hidden layer that keeps the width, and a head with one output.\<close>

definition wf_MetaTaskMLPNetwork :: "MetaTaskMLPNetwork \<Rightarrow> bool" where
  "wf_MetaTaskMLPNetwork net =
     (out_features (fst (mlp net)) = in_features (fst (mlp net)) \<and>
      in_features (snd (mlp net)) = in_features (fst (mlp net)) \<and>
      out_features (snd (mlp net)) = 1 \<and>
      wf_Linear (fst (mlp net)) \<and> wf_Linear (snd (mlp net)))"

definition MetaTaskMLPNetwork_init ::
  "nat \<Rightarrow> bool \<Rightarrow> (nat \<Rightarrow> nat \<Rightarrow> nat \<Rightarrow> nn_Linear) \<Rightarrow> MetaTaskMLPNetwork" where
  "MetaTaskMLPNetwork_init num_loss_weight_dims softmax_flag fresh =
     \<lparr>mlp = (fresh 0 num_loss_weight_dims num_loss_weight_dims, fresh 1 num_loss_weight_dims 1),
      mlp_use_softmax = softmax_flag\<rparr>"

subsection \<open>Small networks to run\<close>

text \<open>A linear layer with every weight \<open>w\<close> and every bias \<open>b\<close>.\<close>

definition const_linear :: "real \<Rightarrow> real \<Rightarrow> nat \<Rightarrow> nat \<Rightarrow> nn_Linear" where
  "const_linear w b m n =
     \<lparr>in_features = m, out_features = n, weight = replicate n (replicate m w), bias = replicate n b\<rparr>"

text \<open>Three step networks of one layer of width 1; the \<open>j\<close>-th maps \<open>v\<close> to \<open>v + j\<close>.\<close>

definition three_step_losses :: MetaLossNetwork where
  "three_step_losses = MetaLossNetwork_init 3 1 1 True (\<lambda>j i. const_linear 1 (real j))"

definition shared_loss :: MetaLossNetwork where
  "shared_loss = MetaLossNetwork_init 3 1 1 False (\<lambda>j i. const_linear 1 (real j))"

text \<open>
  A sequence network whose recurrent layer returns 0 everywhere (as an LSTM with zero
  weights and zero initial states does), with a head of weight 0 and bias \<open>bias_out\<close>: every
  position scores \<open>bias_out\<close>.
\<close>

definition zero_lstm :: "nat \<Rightarrow> real tensor \<Rightarrow> real tensor \<times> real tensor \<Rightarrow> error + real tensor" where
  "zero_lstm n e st =
     (case shape e of
        [b, t, _] \<Rightarrow> Inr \<lparr>shape = [b, t, n], elems = replicate (b * t * n) 0\<rparr>
      | _ \<Rightarrow> Inl RuntimeError)"

definition flat_lstm_net :: "bool \<Rightarrow> real \<Rightarrow> MetaTaskLstmNetwork" where
  "flat_lstm_net softmax_flag bias_out =
     MetaTaskLstmNetwork_init 1 1 1 0 softmax_flag (replicate 7 [0]) [0] [0] zero_lstm
       (const_linear 0 bias_out)"

text \<open>A vector network on one feature that gives every entry the score 1.\<close>

definition flat_mlp_net :: "bool \<Rightarrow> MetaTaskMLPNetwork" where
  "flat_mlp_net softmax_flag = MetaTaskMLPNetwork_init 1 softmax_flag (\<lambda>i. const_linear 0 1)"

text \<open>
  The score of a position as the softmax reads it: the sentinel where the token id is 0, the
  score of the head elsewhere.
\<close>

definition filled_score :: "int tensor \<Rightarrow> real tensor \<Rightarrow> nat \<Rightarrow> real" where
  "filled_score x out idx = (if elems x ! idx = 0 then - 98765 else elems out ! idx)"


text \<open>
  A recurrent layer that returns, at every position of a sequence, the initial hidden state
  that its last layer received for that sequence, and raises when the initial hidden
  state has not one row of \<open>n\<close> entries for each layer and each sequence. The sequence
  network \<open>seeded_lstm_net\<close> has two such layers of width 2, the stored states
  \<open>[[1, 2], [3, 4]]\<close> and \<open>[[5, 6], [7, 8]]\<close>, a head that adds up its input, and no softmax.
\<close>

definition state_reading_lstm ::
  "nat \<Rightarrow> real tensor \<Rightarrow> real tensor \<times> real tensor \<Rightarrow> error + real tensor" where
  "state_reading_lstm n e st =
     (case (shape e, shape (fst st)) of
        ([b, t, _], [L, b', n']) \<Rightarrow>
          if b' = b \<and> n' = n \<and> 0 < L \<and> wf_tensor (fst st) then
            Inr \<lparr>shape = [b, t, n],
                 elems = concat (map (\<lambda>i. concat (replicate t
                                   (take n (drop (((L - 1) * b + i) * n) (elems (fst st))))))
                                 [0..<b])\<rparr>
          else Inl RuntimeError
      | _ \<Rightarrow> Inl RuntimeError)"

definition seeded_lstm_net :: MetaTaskLstmNetwork where
  "seeded_lstm_net =
     MetaTaskLstmNetwork_init 1 2 2 0 False (replicate 7 [0]) [1, 2, 3, 4] [5, 6, 7, 8]
       state_reading_lstm (const_linear 1 0)"


section \<open>Properties of pretrain.py\<close>

lemma bind_err_Inr_iff:
  "bind_err r f = Inr y \<longleftrightarrow> (\<exists>v. r = Inr v \<and> f v = Inr y)"
  by (cases r) (simp_all add: bind_err_def)

lemma batch_losses_rmse:
  "batch_losses n outputs target = Inr (loss, mse_loss, mae_loss, rmse_loss) \<Longrightarrow>
   rmse_loss = torch_sqrt mse_loss"
  by (auto simp: batch_losses_def bind_err_Inr_iff split: if_splits)

lemma mean_nonneg:
  "mean xs = Some v \<Longrightarrow> \<forall>x\<in>set xs. 0 \<le> x \<Longrightarrow> 0 \<le> v"
  by (auto simp: mean_def sum_list_nonneg split: if_splits)

lemma loss_fn_nonneg: "loss_fn a b = Inr (Some v) \<Longrightarrow> 0 \<le> v"
  by (auto simp: loss_fn_def bind_err_Inr_iff dest!: mean_nonneg)

lemma batch_losses_mse_nonneg:
  "batch_losses n outputs target = Inr (loss, Some v, mae_loss, rmse_loss) \<Longrightarrow> 0 \<le> v"
  by (auto simp: batch_losses_def bind_err_Inr_iff split: if_splits dest: loss_fn_nonneg)

lemma epoch_loop_lists:
  "epoch_loop C tr loader (ms, es, rs) s = (Inr (ms', es', rs'), s') \<Longrightarrow>
   rs = map torch_sqrt ms \<Longrightarrow> mse_ok ms \<Longrightarrow>
   rs' = map torch_sqrt ms' \<and> mse_ok ms' \<and> length ms' = length ms + length loader"
proof (induction loader arbitrary: ms es rs s)
  case Nil
  then show ?case by auto
next
  case (Cons batch rest)
  obtain x t where batch: "batch = (x, t)" by (cases batch)
  from Cons.prems(1) obtain outputs where out: "model_call C (zero_grad C (model s)) x = Inr outputs"
    by (auto simp: batch Let_def split: sum.splits)
  from Cons.prems(1) out obtain loss m a r where
    bl: "batch_losses (normalize_loss s) outputs t = Inr (loss, m, a, r)"
    by (auto simp: batch Let_def split: sum.splits)
  have r: "r = torch_sqrt m" using bl by (rule batch_losses_rmse)
  have ok: "mse_ok (ms @ [m])"
    using Cons.prems(3) bl by (cases m) (auto simp: mse_ok_def dest: batch_losses_mse_nonneg)
  from Cons.prems(1) out bl obtain s2 where
    rec: "epoch_loop C tr rest (ms @ [m], es @ [a], rs @ [r]) s2 = (Inr (ms', es', rs'), s')"
    by (auto simp: batch Let_def split: if_splits)
  have "rs @ [r] = map torch_sqrt (ms @ [m])" using Cons.prems(2) r by simp
  from Cons.IH[OF rec this ok] show ?case by simp
qed

lemma sqrt_le_tangent:
  fixes x s :: real
  assumes "0 \<le> x" "0 < s"
  shows "sqrt x \<le> (x + s\<^sup>2) / (2 * s)"
proof -
  have "0 \<le> (sqrt x - s)\<^sup>2" by simp
  then have "2 * s * sqrt x \<le> x + s\<^sup>2"
    using assms by (simp add: power2_diff algebra_simps)
  then show ?thesis using assms by (simp add: pos_le_divide_eq algebra_simps)
qed

lemma sum_sqrt_le_tangent:
  fixes xs :: "real list" and s :: real
  assumes "\<forall>x\<in>set xs. 0 \<le> x" "0 < s"
  shows "sum_list (map sqrt xs) \<le> (sum_list xs + real (length xs) * s\<^sup>2) / (2 * s)"
  using assms
proof (induction xs)
  case Nil
  then show ?case by simp
next
  case (Cons x xs)
  have "sqrt x \<le> (x + s\<^sup>2) / (2 * s)" using Cons.prems by (intro sqrt_le_tangent) auto
  moreover have "sum_list (map sqrt xs) \<le> (sum_list xs + real (length xs) * s\<^sup>2) / (2 * s)"
    using Cons by auto
  ultimately show ?case by (simp add: add_divide_distrib algebra_simps)
qed

lemma mean_sqrt_le_sqrt_mean:
  fixes xs :: "real list"
  assumes nn: "\<forall>x\<in>set xs. 0 \<le> x" and ne: "xs \<noteq> []"
  shows "sum_list (map sqrt xs) / real (length xs) \<le> sqrt (sum_list xs / real (length xs))"
proof -
  let ?n = "real (length xs)"
  let ?S = "sum_list xs"
  have n: "0 < ?n" using ne by simp
  have S: "0 \<le> ?S" using nn by (simp add: sum_list_nonneg)
  show ?thesis
  proof (cases "?S = 0")
    case True
    have "\<forall>x\<in>set xs. x = 0" using True nn
      by (metis sum_list_nonneg_eq_0_iff)
    then have "sum_list (map sqrt xs) = 0" by (induction xs) auto
    then show ?thesis using True by simp
  next
    case False
    define s where "s = sqrt (?S / ?n)"
    have s: "0 < s" using False S n by (simp add: s_def)
    have "s\<^sup>2 = ?S / ?n" using S n by (simp add: s_def)
    then have Ss: "?S = ?n * s\<^sup>2" using n by (simp add: field_simps)
    have "sum_list (map sqrt xs) \<le> (?S + ?n * s\<^sup>2) / (2 * s)"
      using nn s by (rule sum_sqrt_le_tangent)
    also have "\<dots> = (2 * ?n * s\<^sup>2) / (2 * s)" using Ss by simp
    also have "\<dots> = ?n * s" using s by (simp add: power2_eq_square)
    finally have "sum_list (map sqrt xs) / ?n \<le> s"
      using n by (simp add: pos_divide_le_eq mult.commute)
    then show ?thesis by (simp add: s_def)
  qed
qed

lemmas run_trainer =
  epoch_step_def echo_model_def Pretrain_init_def batch_losses_def loss_fn_def
  mae_loss_fn_def broadcast_pair_def bind_err_def mean_def torch_sqrt_def np_mean_def
  two_batches_def fresh_trainer_def

subsection \<open>Checkpointing\<close>

text \<open>
  What an epoch with a validation pass does to the object, when neither pass raises: the
  triple \<open>v\<close> of the validation pass is not read.
\<close>

lemma train_epoch_checkpoint_rule:
  assumes "epoch_step C (pretraining_train_loader s) True s = (Inr (mse, mae, rmse), s1)"
    and "epoch_step C (pretraining_valid_loader s1) False s1 = (Inr v, s2)"
    and "epoch mod VAL_INTERVAL = 0"
  shows "train_epoch C epoch s =
     (let s3 = (if float_gt (best_valid_rmse_loss s2) rmse
                then save_model C (s2\<lparr>best_valid_rmse_loss := the rmse, best_step := int epoch\<rparr>)
                else s2)
      in (Inr (), s3\<lparr>train_step := train_step s3 + 1, model := scheduler_step C (model s3)\<rparr>))"
  using assms by (simp add: train_epoch_def Let_def)

lemmas run_overfitting =
  train_def train_epoch_def VAL_INTERVAL_def float_gt_def save_model_def epoch_step_def
  switching_model_def overfitting_trainer_def Pretrain_init_def batch_losses_def loss_fn_def
  mae_loss_fn_def broadcast_pair_def bind_err_def mean_def torch_sqrt_def np_mean_def

lemma ten_epochs:
  "train switching_model 10 overfitting_trainer =
     (Inr (), overfitting_trainer\<lparr>model := 10, best_valid_rmse_loss := 2, best_step := 0,
                                   train_step := 10, save_dir := [(0, 1)]\<rparr>)"
  by (simp add: run_overfitting upt_rec)

text \<open>
  C1. During training a checkpoint is written if and only if the RMSE of the validation pass
  is strictly less than \<open>best_valid_rmse_loss\<close>, which is then set to the validation
  RMSE, with \<open>best_step\<close> the epoch and the parameters saved under the step counter.

  The code does not do this. The value of the validation pass (line 133) is dropped, and the
  comparison and the assignment at lines 143 and 144 read the RMSE of the training pass of
  line 117. The overfitting trainer, run for eleven epochs, shows it at epoch 10. After ten
  epochs \<open>best_valid_rmse_loss\<close> is 2 and one checkpoint is stored. At epoch 10 the
  training pass has the RMSE 1 and the validation pass the RMSE 2, which is not less than
  2: all the same a second checkpoint is written, under step 10, and
  \<open>best_valid_rmse_loss\<close> becomes 1, the training RMSE.
\<close>

theorem train_saves_on_training_rmse:
  "best_valid_rmse_loss (snd (train switching_model 10 overfitting_trainer)) = 2
   \<and> save_dir (snd (train switching_model 10 overfitting_trainer)) = [(0, 1)]
   \<and> fst (epoch_step switching_model (pretraining_train_loader overfitting_trainer) True
            (snd (train switching_model 10 overfitting_trainer)))
       = Inr (Some 1, Some 1, Some 1)
   \<and> fst (epoch_step switching_model (pretraining_valid_loader overfitting_trainer) False
            (snd (epoch_step switching_model (pretraining_train_loader overfitting_trainer) True
                   (snd (train switching_model 10 overfitting_trainer)))))
       = Inr (Some 4, Some 2, Some 2)
   \<and> train switching_model 11 overfitting_trainer =
       (Inr (), overfitting_trainer\<lparr>model := 11, best_valid_rmse_loss := 1, best_step := 10,
                                     train_step := 11, save_dir := [(10, 11), (0, 1)]\<rparr>)"
proof -
  have a: "train switching_model 11 overfitting_trainer =
       (Inr (), overfitting_trainer\<lparr>model := 11, best_valid_rmse_loss := 1, best_step := 10,
                                     train_step := 11, save_dir := [(10, 11), (0, 1)]\<rparr>)"
    by (simp add: run_overfitting upt_rec)
  have b: "fst (epoch_step switching_model (pretraining_train_loader overfitting_trainer) True
            (snd (train switching_model 10 overfitting_trainer)))
       = Inr (Some 1, Some 1, Some 1)"
    unfolding ten_epochs by (simp add: run_overfitting)
  have c: "fst (epoch_step switching_model (pretraining_valid_loader overfitting_trainer) False
            (snd (epoch_step switching_model (pretraining_train_loader overfitting_trainer) True
                   (snd (train switching_model 10 overfitting_trainer)))))
       = Inr (Some 4, Some 2, Some 2)"
    unfolding ten_epochs by (simp add: run_overfitting)
  from a b c show ?thesis by (simp add: ten_epochs)
qed

subsection \<open>Epoch-level metrics\<close>

text \<open>
  C2 as stated, that the RMSE of every triple returned by \<open>epoch_step\<close> is the square
  root of its MSE, fails on an epoch of two batches whose MSEs are 0 and 4: the epoch MSE
  is 2 and the epoch RMSE is 1.
\<close>

theorem epoch_step_rmse_not_sqrt_mse:
  "fst (epoch_step echo_model two_batches False fresh_trainer) = Inr (Some 2, Some 1, Some 1)
   \<and> (1::real) \<noteq> sqrt 2"
proof -
  have "(1::real) < sqrt 2" by (rule real_less_rsqrt) simp
  then show ?thesis by (simp add: run_trainer)
qed

lemma np_mean_Some:
  "np_mean ms = Some v \<longleftrightarrow>
   ms \<noteq> [] \<and> None \<notin> set ms \<and> v = sum_list (map the ms) / real (length ms)"
  by (auto simp: np_mean_def)

lemma sum_list_map_const:
  fixes f :: "'a \<Rightarrow> real"
  shows "\<forall>x\<in>set xs. f x = c \<Longrightarrow> sum_list (map f xs) = real (length xs) * c"
  by (induction xs) (auto simp: algebra_simps)

lemma np_mean_sqrt:
  assumes "None \<notin> set ms" "ms \<noteq> []"
  shows "np_mean (map torch_sqrt ms) = Some (sum_list (map sqrt (map the ms)) / real (length ms))"
proof -
  have nn: "None \<notin> set (map torch_sqrt ms)" using assms(1) by (auto simp: torch_sqrt_def)
  have "the (torch_sqrt m) = sqrt (the m)" if "m \<in> set ms" for m
  proof (cases m)
    case None
    with that assms(1) show ?thesis by simp
  next
    case (Some v)
    then show ?thesis by (simp add: torch_sqrt_def)
  qed
  then have "\<forall>m\<in>set ms. the (torch_sqrt m) = sqrt (the m)" by blast
  then have eq: "map the (map torch_sqrt ms) = map sqrt (map the ms)" by simp
  have "np_mean (map torch_sqrt ms) =
          Some (sum_list (map the (map torch_sqrt ms)) / real (length (map torch_sqrt ms)))"
    unfolding np_mean_def using nn assms(2) by (simp del: map_map)
  then show ?thesis by (simp only: eq length_map)
qed

text \<open>
  C2, amended. When the batch loop of \<open>epoch_step\<close> ends with the lists
  \<open>mse_losses\<close>, \<open>mae_losses\<close> and \<open>rmse_losses\<close>, the triple returned holds their
  means, and every entry of \<open>rmse_losses\<close> is the square root of the entry of
  \<open>mse_losses\<close> of the same batch. So the epoch RMSE is the mean of the per-batch square
  roots: it never exceeds the square root of the epoch MSE, and equals it when every batch
  has the same MSE (one batch, for instance).
\<close>

theorem epoch_step_rmse_mean_of_batch_rmse:
  assumes "epoch_loop C tr data_loader ([], [], []) s =
             (Inr (mse_losses, mae_losses, rmse_losses), s')"
  shows "epoch_step C data_loader tr s =
           (Inr (np_mean mse_losses, np_mean mae_losses, np_mean rmse_losses), s')
         \<and> rmse_losses = map torch_sqrt mse_losses
         \<and> (\<forall>mse. np_mean mse_losses = Some mse \<longrightarrow>
              (\<exists>rmse. np_mean rmse_losses = Some rmse \<and> rmse \<le> sqrt mse
                 \<and> ((\<forall>m\<in>set mse_losses. m = Some mse) \<longrightarrow> rmse = sqrt mse)))"
proof -
  have step: "epoch_step C data_loader tr s =
           (Inr (np_mean mse_losses, np_mean mae_losses, np_mean rmse_losses), s')"
    using assms by (simp add: epoch_step_def)
  have inv: "rmse_losses = map torch_sqrt mse_losses \<and> mse_ok mse_losses
             \<and> length mse_losses = length [] + length data_loader"
    using epoch_loop_lists[OF assms] by (simp add: mse_ok_def)
  have third: "\<exists>rmse. np_mean rmse_losses = Some rmse \<and> rmse \<le> sqrt mse
                 \<and> ((\<forall>m\<in>set mse_losses. m = Some mse) \<longrightarrow> rmse = sqrt mse)"
    if m: "np_mean mse_losses = Some mse" for mse
  proof -
    let ?vs = "map the mse_losses"
    from m have ne: "mse_losses \<noteq> []" and nn: "None \<notin> set mse_losses"
      and mse: "mse = sum_list ?vs / real (length mse_losses)"
      by (simp_all add: np_mean_Some)
    have r: "np_mean rmse_losses = Some (sum_list (map sqrt ?vs) / real (length mse_losses))"
      using inv np_mean_sqrt[OF nn ne] by simp
    have pos: "\<forall>x\<in>set ?vs. 0 \<le> x"
    proof
      fix x assume "x \<in> set ?vs"
      then obtain m where m: "m \<in> set mse_losses" "x = the m" by auto
      with nn obtain v where "m = Some v" by (cases m) auto
      with m inv show "0 \<le> x" by (auto simp: mse_ok_def)
    qed
    have le: "sum_list (map sqrt ?vs) / real (length ?vs) \<le> sqrt (sum_list ?vs / real (length ?vs))"
      using pos ne by (intro mean_sqrt_le_sqrt_mean) simp_all
    have eq: "sum_list (map sqrt ?vs) / real (length mse_losses) = sqrt mse"
      if all: "\<forall>m\<in>set mse_losses. m = Some mse"
    proof -
      have "\<forall>x\<in>set mse_losses. (sqrt \<circ> the) x = sqrt mse" using all by auto
      then have "sum_list (map (sqrt \<circ> the) mse_losses) = real (length mse_losses) * sqrt mse"
        by (rule sum_list_map_const)
      then have "sum_list (map sqrt ?vs) = real (length mse_losses) * sqrt mse"
        by simp
      then show ?thesis using ne by simp
    qed
    show ?thesis using r le eq mse by auto
  qed
  show ?thesis using step inv third by blast
qed

theorem epoch_step_rmse_mean_of_batch_rmse_witness:
  "epoch_step echo_model two_batches False fresh_trainer =
     (Inr (Some 2, Some 1, Some 1), fresh_trainer) \<and> (1::real) \<le> sqrt 2"
proof -
  have h: "epoch_loop echo_model False two_batches ([], [], []) fresh_trainer =
             (Inr ([Some 0, Some 4], [Some 0, Some 2], [Some 0, Some 2]), fresh_trainer)"
    by (simp add: run_trainer)
  have m: "np_mean [Some 0, Some 4] = Some 2" "np_mean [Some 0, Some 2] = Some 1"
    by (simp_all add: np_mean_def)
  from epoch_step_rmse_mean_of_batch_rmse[OF h] m show ?thesis by auto
qed

subsection \<open>Loading a checkpoint\<close>

text \<open>
  C4 as stated, that \<open>load\<close> raises only if no checkpoint is stored under the step and
  that it then leaves the parameters as they were, fails for a stored file that
  \<open>load_state_dict\<close> rejects: a file is stored under step 3, \<open>load\<close> raises all the
  same, and the first parameter has gone from 1 to 9.
\<close>

theorem load_raises_on_unloadable_checkpoint:
  "map_of (save_dir foreign_checkpoint_trainer) 3 = Some (9, None)
   \<and> model foreign_checkpoint_trainer = (1, 1)
   \<and> load two_key_model 3 foreign_checkpoint_trainer =
       (Inl ValueError, foreign_checkpoint_trainer\<lparr>model := (9, 1)\<rparr>)"
  by (simp add: load_def two_key_model_def foreign_checkpoint_trainer_def Pretrain_init_def)

text \<open>
  C4, amended. \<open>load\<close> raises if and only if no file is stored under the step, or
  \<open>torch.load\<close> raises on the stored file, or \<open>load_state_dict\<close> raises on what it has
  read; what it raises is always the \<open>ValueError\<close>. When no file is stored, and when
  \<open>torch.load\<close> raises, the object is as it was before the call. When the file is read,
  the object differs from the one before the call in the model only, which is the one
  \<open>load_state_dict\<close> has left, whether it raised or not.
\<close>

theorem load_raises_iff_not_loadable:
  "(isl (fst (load C checkpoint_step s)) \<longleftrightarrow>
      (case map_of (save_dir s) checkpoint_step of
         None \<Rightarrow> True
       | Some file \<Rightarrow>
           (case torch_load C file of
              Inl e \<Rightarrow> True
            | Inr state_dict \<Rightarrow> isl (fst (bert_load_state_dict C state_dict (model s))))))
   \<and> (isl (fst (load C checkpoint_step s)) \<longrightarrow> fst (load C checkpoint_step s) = Inl ValueError)
   \<and> (map_of (save_dir s) checkpoint_step = None \<longrightarrow>
        load C checkpoint_step s = (Inl ValueError, s))
   \<and> (\<forall>file. map_of (save_dir s) checkpoint_step = Some file \<and> isl (torch_load C file) \<longrightarrow>
        load C checkpoint_step s = (Inl ValueError, s))
   \<and> (\<forall>file state_dict.
        map_of (save_dir s) checkpoint_step = Some file \<and> torch_load C file = Inr state_dict \<longrightarrow>
        snd (load C checkpoint_step s) =
          s\<lparr>model := snd (bert_load_state_dict C state_dict (model s))\<rparr>
        \<and> isl (fst (load C checkpoint_step s)) =
            isl (fst (bert_load_state_dict C state_dict (model s))))"
  by (auto simp: load_def split: option.splits sum.splits prod.splits)

text \<open>
  C4, amended, on three calls: a step without a file, the file written by the first epoch
  of a run, and the file of another architecture.
\<close>

theorem load_raises_iff_not_loadable_witness:
  "load echo_model 7 (snd (train echo_model 1 fresh_trainer))
     = (Inl ValueError, snd (train echo_model 1 fresh_trainer))
   \<and> snd (load echo_model 0 (fresh_trainer\<lparr>model := 5, save_dir := [(0, 1)]\<rparr>))
     = fresh_trainer\<lparr>model := 1, save_dir := [(0, 1)]\<rparr>
   \<and> isl (fst (load echo_model 0 (fresh_trainer\<lparr>model := 5, save_dir := [(0, 1)]\<rparr>))) = False
   \<and> snd (load two_key_model 3 foreign_checkpoint_trainer)
     = foreign_checkpoint_trainer\<lparr>model := (9, 1)\<rparr>
   \<and> fst (load two_key_model 3 foreign_checkpoint_trainer) = Inl ValueError"
proof -
  let ?s = "snd (train echo_model 1 fresh_trainer)"
  let ?r = "fresh_trainer\<lparr>model := 5, save_dir := [(0, 1)]\<rparr>"
  have dir: "save_dir ?s = [(0, 1)]"
    by (simp add: train_def train_epoch_def VAL_INTERVAL_def float_gt_def save_model_def run_trainer)
  have a: "map_of (save_dir ?s) 7 = None" by (simp add: dir)
  from load_raises_iff_not_loadable[of echo_model 7 ?s] a
  have 1: "load echo_model 7 ?s = (Inl ValueError, ?s)" by blast
  have b: "map_of (save_dir ?r) 0 = Some 1" "torch_load echo_model 1 = Inr 1"
    by (simp_all add: echo_model_def)
  from load_raises_iff_not_loadable[of echo_model 0 ?r] b
  have "snd (load echo_model 0 ?r) = ?r\<lparr>model := snd (bert_load_state_dict echo_model 1 (model ?r))\<rparr>
      \<and> isl (fst (load echo_model 0 ?r)) = isl (fst (bert_load_state_dict echo_model 1 (model ?r)))"
    by blast
  then have 2: "snd (load echo_model 0 ?r) = fresh_trainer\<lparr>model := 1, save_dir := [(0, 1)]\<rparr>"
    and 3: "isl (fst (load echo_model 0 ?r)) = False"
    by (simp_all add: echo_model_def)
  have c: "map_of (save_dir foreign_checkpoint_trainer) 3 = Some (9, None)"
    "torch_load two_key_model (9, None) = Inr (9, None)"
    "model foreign_checkpoint_trainer = (1, 1)"
    by (simp_all add: two_key_model_def foreign_checkpoint_trainer_def Pretrain_init_def)
  from load_raises_iff_not_loadable[of two_key_model 3 foreign_checkpoint_trainer] c(1,2)
  have "snd (load two_key_model 3 foreign_checkpoint_trainer) =
          foreign_checkpoint_trainer\<lparr>model := snd (bert_load_state_dict two_key_model (9, None)
                                                      (model foreign_checkpoint_trainer))\<rparr>
      \<and> isl (fst (load two_key_model 3 foreign_checkpoint_trainer)) =
          isl (fst (bert_load_state_dict two_key_model (9, None) (model foreign_checkpoint_trainer)))"
    by blast
  then have 4: "snd (load two_key_model 3 foreign_checkpoint_trainer)
       = foreign_checkpoint_trainer\<lparr>model := (9, 1)\<rparr>"
    and "isl (fst (load two_key_model 3 foreign_checkpoint_trainer))"
    by (simp_all add: c(3) two_key_model_def)
  with load_raises_iff_not_loadable[of two_key_model 3 foreign_checkpoint_trainer]
  have 5: "fst (load two_key_model 3 foreign_checkpoint_trainer) = Inl ValueError" by blast
  from 1 2 3 4 5 show ?thesis by simp
qed

subsection \<open>The two scale conventions\<close>












section \<open>Properties of models/meta\_loss\_model.py\<close>

subsection \<open>The loss networks\<close>

lemma bind_err_Inl_iff:
  "bind_err r f = Inl e \<longleftrightarrow> r = Inl e \<or> (\<exists>v. r = Inr v \<and> f v = Inl e)"
  by (cases r) (simp_all add: bind_err_def)

lemma Linear_forward_no_IndexError: "Linear_forward L x \<noteq> Inl IndexError"
  by (simp add: Linear_forward_def)

lemma layer_forward_no_IndexError: "layer_forward layer x \<noteq> Inl IndexError"
  by (cases layer) (simp_all add: bind_err_Inl_iff Linear_forward_no_IndexError)

lemma layers_forward_no_IndexError: "layers_forward ls x \<noteq> Inl IndexError"
  by (induction ls arbitrary: x) (simp_all add: bind_err_Inl_iff layer_forward_no_IndexError)

lemma MetaStepLossNetwork_forward_no_IndexError:
  "MetaStepLossNetwork_forward m x \<noteq> Inl IndexError"
  by (simp add: MetaStepLossNetwork_forward_def layers_forward_no_IndexError)

lemma module_list_get_IndexError:
  "module_list_get ms idx = Inl IndexError \<longleftrightarrow> idx < - int (length ms) \<or> int (length ms) \<le> idx"
  by (auto simp: module_list_get_def)

lemma module_list_get_nonneg:
  "0 \<le> idx \<Longrightarrow> idx < int (length ms) \<Longrightarrow> module_list_get ms idx = Inr (ms ! nat idx)"
  by (simp add: module_list_get_def)

lemma module_list_get_neg:
  "- int (length ms) \<le> idx \<Longrightarrow> idx < 0 \<Longrightarrow>
   module_list_get ms idx = Inr (ms ! nat (idx + int (length ms)))"
  by (simp add: module_list_get_def)

text \<open>
  C5, amended. For a network constructed with \<open>use_step_loss\<close> and \<open>num_inner_steps = n\<close>,
  \<open>forward\<close> raises \<open>IndexError\<close> if and only if the step is outside \<open>[-n, n)\<close>.
  A step \<open>0 \<le> step < n\<close> evaluates the step network constructed as the \<open>step\<close>-th, and
  a step \<open>-n \<le> step < 0\<close> the one constructed as the \<open>(step + n)\<close>-th.
\<close>

theorem MetaLossNetwork_forward_step_specific:
  "(MetaLossNetwork_forward (MetaLossNetwork_init n h l True fresh) x step = Inl IndexError
      \<longleftrightarrow> step < - int (nat n) \<or> int (nat n) \<le> step)
   \<and> (0 \<le> step \<and> step < n \<longrightarrow>
        MetaLossNetwork_forward (MetaLossNetwork_init n h l True fresh) x step =
        MetaStepLossNetwork_forward (MetaStepLossNetwork_init h l (fresh (nat step))) x)
   \<and> (- n \<le> step \<and> step < 0 \<longrightarrow>
        MetaLossNetwork_forward (MetaLossNetwork_init n h l True fresh) x step =
        MetaStepLossNetwork_forward (MetaStepLossNetwork_init h l (fresh (nat (step + n)))) x)"
proof -
  let ?ms = "map (\<lambda>j. MetaStepLossNetwork_init h l (fresh j)) [0..<nat n]"
  have fw: "MetaLossNetwork_forward (MetaLossNetwork_init n h l True fresh) x step =
        bind_err (module_list_get ?ms step) (\<lambda>m. MetaStepLossNetwork_forward m x)"
    by (simp add: MetaLossNetwork_forward_def MetaLossNetwork_init_def)
  have len: "length ?ms = nat n" by simp
  have 1: "MetaLossNetwork_forward (MetaLossNetwork_init n h l True fresh) x step = Inl IndexError
      \<longleftrightarrow> step < - int (nat n) \<or> int (nat n) \<le> step"
    unfolding fw bind_err_Inl_iff
    using module_list_get_IndexError[of ?ms step] MetaStepLossNetwork_forward_no_IndexError
    by (simp only: len) blast
  have 2: "MetaLossNetwork_forward (MetaLossNetwork_init n h l True fresh) x step =
        MetaStepLossNetwork_forward (MetaStepLossNetwork_init h l (fresh (nat step))) x"
    if "0 \<le> step" "step < n"
  proof -
    have "module_list_get ?ms step = Inr (?ms ! nat step)"
      using that by (intro module_list_get_nonneg) simp_all
    moreover have "?ms ! nat step = MetaStepLossNetwork_init h l (fresh (nat step))"
      using that by simp
    ultimately show ?thesis by (simp add: fw bind_err_def)
  qed
  have 3: "MetaLossNetwork_forward (MetaLossNetwork_init n h l True fresh) x step =
        MetaStepLossNetwork_forward (MetaStepLossNetwork_init h l (fresh (nat (step + n)))) x"
    if "- n \<le> step" "step < 0"
  proof -
    have n: "int (length ?ms) = n" using that by simp
    have "module_list_get ?ms step = Inr (?ms ! nat (step + int (length ?ms)))"
      using that by (intro module_list_get_neg) simp_all
    then have "module_list_get ?ms step = Inr (?ms ! nat (step + n))"
      by (simp only: n)
    moreover have "?ms ! nat (step + n) = MetaStepLossNetwork_init h l (fresh (nat (step + n)))"
      using that by simp
    ultimately have "module_list_get ?ms step =
        Inr (MetaStepLossNetwork_init h l (fresh (nat (step + n))))" by simp
    then show ?thesis unfolding fw by (simp add: bind_err_def)
  qed
  from 1 2 3 show ?thesis by blast
qed

lemmas run_net =
  three_step_losses_def shared_loss_def MetaLossNetwork_init_def MetaStepLossNetwork_init_def
  MetaLossNetwork_forward_def MetaStepLossNetwork_forward_def module_list_get_def
  Linear_forward_def const_linear_def bind_err_def rows_def dot_def

lemma upt3: "[0..<3] = [0, 1, 2]" by (simp add: upt_rec)

text \<open>
  C5 as stated, that \<open>forward\<close> raises for every step outside \<open>[0, num_inner_steps)\<close>,
  fails at the step \<open>-1\<close>: of three step networks the last one is evaluated (it adds 2).
\<close>

theorem MetaLossNetwork_forward_negative_step:
  "MetaLossNetwork_forward three_step_losses \<lparr>shape = [1], elems = [10]\<rparr> (- 1)
     = Inr \<lparr>shape = [1], elems = [12]\<rparr>"
  by (simp add: run_net upt3)

text \<open>C5, amended, on the three step networks: the steps 1, -3, 3 and -4.\<close>

theorem MetaLossNetwork_forward_step_specific_witness:
  "MetaLossNetwork_forward three_step_losses \<lparr>shape = [1], elems = [10]\<rparr> 1
     = Inr \<lparr>shape = [1], elems = [11]\<rparr>
   \<and> MetaLossNetwork_forward three_step_losses \<lparr>shape = [1], elems = [10]\<rparr> (- 3)
     = Inr \<lparr>shape = [1], elems = [10]\<rparr>
   \<and> MetaLossNetwork_forward three_step_losses \<lparr>shape = [1], elems = [10]\<rparr> 3 = Inl IndexError
   \<and> MetaLossNetwork_forward three_step_losses \<lparr>shape = [1], elems = [10]\<rparr> (- 4) = Inl IndexError"
proof -
  let ?f = "\<lambda>j i. const_linear 1 (real j)"
  let ?x = "\<lparr>shape = [1], elems = [10::real]\<rparr>"
  note T = MetaLossNetwork_forward_step_specific[of 3 1 1 ?f ?x, folded three_step_losses_def]
  have a: "MetaStepLossNetwork_forward (MetaStepLossNetwork_init 1 1 (?f (nat 1))) ?x
             = Inr \<lparr>shape = [1], elems = [11]\<rparr>"
    by (simp add: run_net)
  have b: "MetaStepLossNetwork_forward (MetaStepLossNetwork_init 1 1 (?f (nat (- 3 + 3)))) ?x
             = Inr \<lparr>shape = [1], elems = [10]\<rparr>"
    by (simp add: run_net)
  from T[of 1] a have 1: "MetaLossNetwork_forward three_step_losses ?x 1
     = Inr \<lparr>shape = [1], elems = [11]\<rparr>" by simp
  from T[of "- 3"] b have 2: "MetaLossNetwork_forward three_step_losses ?x (- 3)
     = Inr \<lparr>shape = [1], elems = [10]\<rparr>" by simp
  from T[of 3] have 3: "MetaLossNetwork_forward three_step_losses ?x 3 = Inl IndexError" by simp
  from T[of "- 4"] have 4: "MetaLossNetwork_forward three_step_losses ?x (- 4) = Inl IndexError" by simp
  from 1 2 3 4 show ?thesis by blast
qed

text \<open>
  C6. For a network constructed without \<open>use_step_loss\<close>, \<open>forward\<close> gives the same
  result at every two steps \<open>i\<close> and \<open>j\<close>: the one of the single step network.
\<close>

theorem MetaLossNetwork_forward_shared:
  "MetaLossNetwork_forward (MetaLossNetwork_init n h l False fresh) x i =
     MetaLossNetwork_forward (MetaLossNetwork_init n h l False fresh) x j
   \<and> MetaLossNetwork_forward (MetaLossNetwork_init n h l False fresh) x i =
     MetaStepLossNetwork_forward (MetaStepLossNetwork_init h l (fresh 0)) x"
  by (simp add: MetaLossNetwork_forward_def MetaLossNetwork_init_def module_list_get_def bind_err_def)

text \<open>C6 on the shared network: the steps 0 and 2 both add 0, as the one step network does.\<close>

theorem MetaLossNetwork_forward_shared_witness:
  "MetaLossNetwork_forward shared_loss \<lparr>shape = [1], elems = [10]\<rparr> 0
     = MetaLossNetwork_forward shared_loss \<lparr>shape = [1], elems = [10]\<rparr> 2
   \<and> MetaLossNetwork_forward shared_loss \<lparr>shape = [1], elems = [10]\<rparr> 2
     = Inr \<lparr>shape = [1], elems = [10]\<rparr>"
proof -
  let ?f = "\<lambda>j i. const_linear 1 (real j)"
  let ?x = "\<lparr>shape = [1], elems = [10::real]\<rparr>"
  note T = MetaLossNetwork_forward_shared[of 3 1 1 ?f ?x, folded shared_loss_def]
  have "MetaStepLossNetwork_forward (MetaStepLossNetwork_init 1 1 (?f 0)) ?x
          = Inr \<lparr>shape = [1], elems = [10]\<rparr>"
    by (simp add: run_net)
  with T[of 0 2] T[of 2 0] show ?thesis by simp
qed

subsection \<open>Shapes\<close>

lemma Linear_forward_Inr:
  "Linear_forward L x = Inr y \<Longrightarrow>
   shape x \<noteq> [] \<and> last (shape x) = in_features L \<and>
   shape y = butlast (shape x) @ [out_features L]"
  by (auto simp: Linear_forward_def split: if_splits)

lemma Embedding_forward_Inr:
  "Embedding_forward E x = Inr e \<Longrightarrow> shape e = shape x @ [embedding_dim E]"
  by (auto simp: Embedding_forward_def split: if_splits)

lemma lstm_encode_Inr:
  assumes "lstm_encode net x = Inr (msk, lo)"
  shows "msk = eq_zero x \<and>
         (\<exists>b t. shape x = [b, t] \<and>
            (wf_MetaTaskLstmNetwork net \<longrightarrow>
               wf_tensor lo \<and> shape lo = [b, t, in_features (out_net net)]))"
proof -
  from assms obtain e where e: "Embedding_forward (embedding net) x = Inr e"
    and rest: "(case shape e of
          [b, t, _] \<Rightarrow>
            bind_err (initial_state (h0 net) b) (\<lambda>h.
            bind_err (initial_state (c0 net) b) (\<lambda>c.
            bind_err (lstm net e (h, c)) (\<lambda>lstm_out. Inr (eq_zero x, lstm_out))))
        | _ \<Rightarrow> Inl ValueError) = Inr (msk, lo)"
    by (auto simp: lstm_encode_def Let_def bind_err_Inr_iff)
  from rest obtain b t d where sh: "shape e = [b, t, d]"
    by (auto split: list.splits)
  from rest sh obtain h c where l: "lstm net e (h, c) = Inr lo" and m: "msk = eq_zero x"
    by (auto simp: bind_err_Inr_iff)
  from sh Embedding_forward_Inr[OF e] have x: "shape x = [b, t]"
    by (cases "shape x" rule: rev_cases) auto
  have "wf_tensor lo \<and> shape lo = [b, t, in_features (out_net net)]"
    if "wf_MetaTaskLstmNetwork net"
    using that sh l unfolding wf_MetaTaskLstmNetwork_def by blast
  with m x show ?thesis by blast
qed

lemma broadcastable_to_longer: "length ms > length ss \<Longrightarrow> \<not> broadcastable_to ms ss"
  by (simp add: broadcastable_to_def)

lemma masked_fill_inplace_longer:
  "length (shape msk) > length (shape self) \<Longrightarrow> masked_fill_inplace self msk v = Inl RuntimeError"
  by (simp add: masked_fill_inplace_def broadcastable_to_longer)

lemma softmax_rank_le_1: "length (shape T) \<le> 1 \<Longrightarrow> softmax T 1 = Inl IndexError"
  by (simp add: softmax_def)

lemma isl_bind_err: "isl (bind_err r f) \<longleftrightarrow> (\<forall>v. r = Inr v \<longrightarrow> isl (f v))"
  by (cases r) (simp_all add: bind_err_def)

lemma mlp_forward_Inr:
  "mlp_forward m x = Inr out \<Longrightarrow>
   shape x \<noteq> [] \<and> shape out = butlast (shape x) @ [out_features (snd m)]"
  by (auto simp: mlp_forward_def bind_err_Inr_iff ReLU_def dest!: Linear_forward_Inr)

text \<open>
  C10, amended. With softmax, a batch of exactly one row makes \<open>forward\<close> raise, for the
  sequence network and for the vector network, whenever the scores are computed: the
  squeeze after the head removes the batch dimension too, and \<open>masked_fill_\<close> raises
  (a \<open>RuntimeError\<close>) on the mask, which still has the batch dimension, so that the
  softmax is not reached. The vector network with softmax raises in this way on every
  input, since the squeeze always removes the dimension of the head. Without softmax the
  result of a one-row batch is the absolute value of the scores in a tensor that has lost
  the batch dimension.
\<close>

theorem one_row_batch_fails_at_masked_fill:
  "(wf_MetaTaskLstmNetwork net \<and> use_softmax net \<and> shape x = [1, t] \<longrightarrow>
      fst (MetaTaskLstmNetwork_forward net x) =
        bind_err (lstm_scores net x) (\<lambda>out. Inl RuntimeError)
      \<and> (\<forall>out. lstm_scores net x = Inr out \<longrightarrow>
            masked_fill_inplace (squeeze out) (eq_zero x) (- 98765) = Inl RuntimeError))
   \<and> (wf_MetaTaskLstmNetwork net \<and> \<not> use_softmax net \<and> shape x = [1, t] \<longrightarrow>
      fst (MetaTaskLstmNetwork_forward net x) =
        bind_err (lstm_scores net x)
          (\<lambda>out. Inr \<lparr>shape = filter (\<lambda>d. d \<noteq> 1) [t], elems = map abs (elems out)\<rparr>))
   \<and> (wf_MetaTaskMLPNetwork m \<and> mlp_use_softmax m \<longrightarrow>
      MetaTaskMLPNetwork_forward m u =
        bind_err (mlp_forward (mlp m) u) (\<lambda>out. Inl RuntimeError)
      \<and> (\<forall>out. mlp_forward (mlp m) u = Inr out \<longrightarrow>
            masked_fill_inplace (squeeze out) (eq_zero u) (- 98765) = Inl RuntimeError))
   \<and> (wf_MetaTaskMLPNetwork m \<and> \<not> mlp_use_softmax m \<and> shape u = 1 # rest \<longrightarrow>
      MetaTaskMLPNetwork_forward m u =
        bind_err (mlp_forward (mlp m) u)
          (\<lambda>out. Inr \<lparr>shape = filter (\<lambda>d. d \<noteq> 1) (butlast rest), elems = map abs (elems out)\<rparr>))"
proof -
  have scores: "msk = eq_zero x \<and> shape out = [1, t, 1]"
    if wf: "wf_MetaTaskLstmNetwork net" and x: "shape x = [1, t]"
      and enc: "lstm_encode net x = Inr (msk, lo)"
      and lin: "Linear_forward (out_net net) lo = Inr out" for msk lo out
  proof -
    from lstm_encode_Inr[OF enc] wf x
    have "msk = eq_zero x" "shape lo = [1, t, in_features (out_net net)]" by auto
    with Linear_forward_Inr[OF lin] wf show ?thesis
      by (simp add: wf_MetaTaskLstmNetwork_def)
  qed
  have fill: "masked_fill_inplace (squeeze out) (eq_zero x) (- 98765) = Inl RuntimeError"
    if "shape out = [1, t, 1]" "shape x = [1, t]" for out
  proof -
    have "length (shape (squeeze out)) \<le> 1" using that(1) by (simp add: squeeze_def)
    moreover have "length (shape (eq_zero x)) = 2" using that(2) by (simp add: eq_zero_def)
    ultimately show ?thesis by (simp add: masked_fill_inplace_longer)
  qed
  have 1: "fst (MetaTaskLstmNetwork_forward net x) =
        bind_err (lstm_scores net x) (\<lambda>out. Inl RuntimeError)
      \<and> (\<forall>out. lstm_scores net x = Inr out \<longrightarrow>
            masked_fill_inplace (squeeze out) (eq_zero x) (- 98765) = Inl RuntimeError)"
    if wf: "wf_MetaTaskLstmNetwork net" and sm: "use_softmax net" and x: "shape x = [1, t]"
  proof (cases "lstm_encode net x")
    case (Inl e)
    then show ?thesis
      by (simp add: MetaTaskLstmNetwork_forward_def lstm_scores_def bind_err_def)
  next
    case (Inr p)
    obtain msk lo where p: "p = (msk, lo)" by (cases p)
    show ?thesis
    proof (cases "Linear_forward (out_net net) lo")
      case (Inl e)
      with Inr p sm show ?thesis
        by (simp add: MetaTaskLstmNetwork_forward_def lstm_scores_def bind_err_def)
    next
      case lin: (Inr out)
      from scores[OF wf x Inr[unfolded p] lin] have m: "msk = eq_zero x" and so: "shape out = [1, t, 1]"
        by simp_all
      from fill[OF so x] Inr p lin sm m show ?thesis
        by (simp add: MetaTaskLstmNetwork_forward_def lstm_scores_def bind_err_def)
    qed
  qed
  have 2: "fst (MetaTaskLstmNetwork_forward net x) =
        bind_err (lstm_scores net x)
          (\<lambda>out. Inr \<lparr>shape = filter (\<lambda>d. d \<noteq> 1) [t], elems = map abs (elems out)\<rparr>)"
    if wf: "wf_MetaTaskLstmNetwork net" and sm: "\<not> use_softmax net" and x: "shape x = [1, t]"
  proof (cases "lstm_encode net x")
    case (Inl e)
    then show ?thesis
      by (simp add: MetaTaskLstmNetwork_forward_def lstm_scores_def bind_err_def)
  next
    case (Inr p)
    obtain msk lo where p: "p = (msk, lo)" by (cases p)
    show ?thesis
    proof (cases "Linear_forward (out_net net) lo")
      case (Inl e)
      with Inr p sm show ?thesis
        by (simp add: MetaTaskLstmNetwork_forward_def lstm_scores_def bind_err_def)
    next
      case lin: (Inr out)
      from scores[OF wf x Inr[unfolded p] lin] have so: "shape out = [1, t, 1]" by simp
      then have "torch_abs (squeeze out) =
          \<lparr>shape = filter (\<lambda>d. d \<noteq> 1) [t], elems = map abs (elems out)\<rparr>"
        by (simp add: torch_abs_def squeeze_def)
      with Inr p lin sm show ?thesis
        by (simp add: MetaTaskLstmNetwork_forward_def lstm_scores_def bind_err_def)
    qed
  qed
  have mlp_shape: "shape out = butlast (shape u) @ [1] \<and> shape u \<noteq> []"
    if wf: "wf_MetaTaskMLPNetwork m" and out: "mlp_forward (mlp m) u = Inr out" for out
    using mlp_forward_Inr[OF out] wf by (simp add: wf_MetaTaskMLPNetwork_def)
  have mlp_fill: "masked_fill_inplace (squeeze out) (eq_zero u) (- 98765) = Inl RuntimeError"
    if wf: "wf_MetaTaskMLPNetwork m" and out: "mlp_forward (mlp m) u = Inr out" for out
  proof -
    from mlp_shape[OF wf out] have so: "shape out = butlast (shape u) @ [1]" and ne: "shape u \<noteq> []"
      by simp_all
    have "shape (squeeze out) = filter (\<lambda>d. d \<noteq> 1) (butlast (shape u))"
      unfolding squeeze_def so by simp
    then have "length (shape (squeeze out)) \<le> length (butlast (shape u))"
      by (simp only: length_filter_le)
    also have "\<dots> < length (shape u)" using ne by simp
    finally have "length (shape (squeeze out)) < length (shape (eq_zero u))"
      by (simp add: eq_zero_def)
    then show ?thesis by (rule masked_fill_inplace_longer)
  qed
  have 3: "MetaTaskMLPNetwork_forward m u =
        bind_err (mlp_forward (mlp m) u) (\<lambda>out. Inl RuntimeError)
      \<and> (\<forall>out. mlp_forward (mlp m) u = Inr out \<longrightarrow>
            masked_fill_inplace (squeeze out) (eq_zero u) (- 98765) = Inl RuntimeError)"
    if wf: "wf_MetaTaskMLPNetwork m" and sm: "mlp_use_softmax m"
  proof (cases "mlp_forward (mlp m) u")
    case (Inl e)
    with sm show ?thesis by (simp add: MetaTaskMLPNetwork_forward_def Let_def bind_err_def)
  next
    case (Inr out)
    with mlp_fill[OF wf Inr] sm show ?thesis
      by (simp add: MetaTaskMLPNetwork_forward_def Let_def bind_err_def)
  qed
  have 4: "MetaTaskMLPNetwork_forward m u =
        bind_err (mlp_forward (mlp m) u)
          (\<lambda>out. Inr \<lparr>shape = filter (\<lambda>d. d \<noteq> 1) (butlast rest), elems = map abs (elems out)\<rparr>)"
    if wf: "wf_MetaTaskMLPNetwork m" and sm: "\<not> mlp_use_softmax m" and u: "shape u = 1 # rest"
  proof (cases "mlp_forward (mlp m) u")
    case (Inl e)
    with sm show ?thesis by (simp add: MetaTaskMLPNetwork_forward_def Let_def bind_err_def)
  next
    case (Inr out)
    from mlp_shape[OF wf Inr] u have "shape out = butlast (1 # rest) @ [1]" by simp
    then have "torch_abs (squeeze out) =
        \<lparr>shape = filter (\<lambda>d. d \<noteq> 1) (butlast rest), elems = map abs (elems out)\<rparr>"
      by (simp add: torch_abs_def squeeze_def)
    with Inr sm show ?thesis
      by (simp add: MetaTaskMLPNetwork_forward_def Let_def bind_err_def)
  qed
  from 1 2 3 4 show ?thesis by blast
qed

subsection \<open>The learned initial states\<close>

lemma length_concat_blocks:
  "\<forall>i<n. length (f i) = k \<Longrightarrow> length (concat (map f [0..<n])) = n * k"
  by (induction n) simp_all

lemma block_of_concat:
  assumes "\<forall>i<n. length (f i) = k" "i < n"
  shows "take k (drop (i * k) (concat (map f [0..<n]))) = f i"
  using assms
proof (induction n)
  case 0
  then show ?case by simp
next
  case (Suc n)
  have len: "length (concat (map f [0..<n])) = n * k"
    using Suc.prems(1) by (intro length_concat_blocks) simp
  show ?case
  proof (cases "i < n")
    case True
    then have IH: "take k (drop (i * k) (concat (map f [0..<n]))) = f i"
      using Suc by simp
    have "Suc i \<le> n" using True by simp
    then have "Suc i * k \<le> n * k" by (rule mult_le_mono1)
    then have le: "i * k + k \<le> n * k" by simp
    have "i * k \<le> n * k" using True by (intro mult_le_mono1) simp
    moreover have "k \<le> n * k - i * k" using le by linarith
    ultimately show ?thesis using IH len by simp
  next
    case False
    with Suc.prems(2) have "i = n" by simp
    with len Suc.prems(1) show ?thesis by simp
  qed
qed

lemma part_of_block:
  assumes "\<forall>i<n. length (f i) = k" "i < n" "c + a \<le> k"
  shows "take a (drop (i * k + c) (concat (map f [0..<n]))) = take a (drop c (f i))"
proof -
  let ?C = "concat (map f [0..<n])"
  have "take a (drop c (f i)) = take a (drop c (take k (drop (i * k) ?C)))"
    using block_of_concat[OF assms(1,2)] by simp
  also have "\<dots> = take a (take (k - c) (drop c (drop (i * k) ?C)))"
    by (simp add: drop_take)
  also have "\<dots> = take a (drop (i * k + c) ?C)"
    using assms(3) by (simp add: min_def add.commute)
  finally show ?thesis by simp
qed

lemma part_of_replicate:
  assumes "length e = k" "i < n" "c + a \<le> k"
  shows "take a (drop (i * k + c) (concat (replicate n e))) = take a (drop c e)"
proof -
  have "replicate n e = map (\<lambda>_. e) [0..<n]" by (simp add: map_replicate_trivial)
  then show ?thesis using part_of_block[of n "\<lambda>_. e" k i c a] assms by simp
qed

lemma initial_state_rows:
  assumes wf: "wf_tensor p" and sh: "shape p = [L, H]"
  shows "\<exists>T. initial_state p b = Inr T \<and> shape T = [L, b, H] \<and>
           (\<forall>l<L. \<forall>j<b. take H (drop ((l * b + j) * H) (elems T)) = take H (drop (l * H) (elems p)))"
proof -
  let ?r = "concat (replicate b (elems p))"
  let ?h = "\<lambda>l j. take H (drop ((j * L + l) * H) ?r)"
  let ?g = "\<lambda>l. concat (map (?h l) [0..<b])"
  let ?T = "\<lparr>shape = [L, b, H], elems = concat (map ?g [0..<L])\<rparr>"
  have len: "length (elems p) = L * H" using wf sh by (simp add: wf_tensor_def)
  have init: "initial_state p b = Inr ?T"
    by (simp add: initial_state_def repeat_b11_def permute_102_def contiguous_def sh
        bind_err_def Let_def)
  have h: "?h l j = take H (drop (l * H) (elems p))" if "l < L" "j < b" for l j
  proof -
    have "Suc l \<le> L" using that by simp
    then have "Suc l * H \<le> L * H" by (rule mult_le_mono1)
    then have "l * H + H \<le> L * H" by simp
    from part_of_replicate[OF len that(2) this]
    show ?thesis by (simp add: algebra_simps)
  qed
  have hlen: "length (?h l j) = H" if "l < L" "j < b" for l j
  proof -
    have "Suc l \<le> L" using that by simp
    then have "Suc l * H \<le> L * H" by (rule mult_le_mono1)
    then have "H \<le> L * H - l * H" by simp
    then show ?thesis unfolding h[OF that] using len by simp
  qed
  have glen: "length (?g l) = b * H" if "l < L" for l
    using hlen[OF that] by (intro length_concat_blocks) simp
  have "take H (drop ((l * b + j) * H) (elems ?T)) = take H (drop (l * H) (elems p))"
    if l: "l < L" and j: "j < b" for l j
  proof -
    have "Suc j \<le> b" using j by simp
    then have "Suc j * H \<le> b * H" by (rule mult_le_mono1)
    then have le: "j * H + H \<le> b * H" by simp
    have "take H (drop (l * (b * H) + j * H) (concat (map ?g [0..<L]))) = take H (drop (j * H) (?g l))"
      using glen l le by (intro part_of_block) simp_all
    also have "\<dots> = ?h l j"
      using block_of_concat[of b "?h l" H j] hlen[OF l] j by simp
    also have "\<dots> = take H (drop (l * H) (elems p))" by (rule h[OF l j])
    finally show ?thesis by (simp add: algebra_simps)
  qed
  with init show ?thesis by auto
qed

subsection \<open>The storages during a call\<close>

lemma keeps_reading: "keeps (\<lambda>h. 2 \<le> cell h) (\<lambda>st. new_tensor (g st) st)"
  unfolding keeps_def
proof (intro allI impI)
  fix st :: storages assume "2 \<le> length st"
  then show "case new_tensor (g st) st of (r, st') \<Rightarrow>
           2 \<le> length st' \<and> take 2 st' = take 2 st \<and> (\<forall>v. r = Inr v \<longrightarrow> 2 \<le> cell v)"
    by (cases "g st") (auto simp: new_tensor_def)
qed

lemma keeps_new_tensor: "keeps (\<lambda>h. 2 \<le> cell h) (new_tensor r)"
  using keeps_reading[of "\<lambda>_. r"] .

lemma keeps_repeat: "keeps (\<lambda>h. 2 \<le> cell h) (repeat_b11_st p b)"
  using keeps_reading[of "\<lambda>st. repeat_b11 (deref st p) b"]
  by (simp add: repeat_b11_st_def[abs_def])

lemma keeps_raise: "keeps Q (\<lambda>st. (Inl e, st))"
  by (simp add: keeps_def)

lemma keeps_bind:
  assumes "keeps Q m" and "\<And>v. Q v \<Longrightarrow> keeps R (f v)"
  shows "keeps R (bind_st m f)"
  unfolding keeps_def
proof (intro allI impI)
  fix st :: storages assume st: "2 \<le> length st"
  obtain r st1 where m: "m st = (r, st1)" by (cases "m st")
  from assms(1) st m have 1: "2 \<le> length st1" "take 2 st1 = take 2 st" "\<forall>v. r = Inr v \<longrightarrow> Q v"
    by (auto simp: keeps_def)
  show "case bind_st m f st of (r, st') \<Rightarrow>
           2 \<le> length st' \<and> take 2 st' = take 2 st \<and> (\<forall>v. r = Inr v \<longrightarrow> R v)"
  proof (cases r)
    case (Inl e)
    with m 1 show ?thesis by (simp add: bind_st_def)
  next
    case (Inr v)
    with 1 have "Q v" by simp
    from assms(2)[OF this] 1(1)
    have "case f v st1 of (r, st') \<Rightarrow>
           2 \<le> length st' \<and> take 2 st' = take 2 st1 \<and> (\<forall>v. r = Inr v \<longrightarrow> R v)"
      by (simp add: keeps_def)
    with m Inr 1(2) show ?thesis by (auto simp: bind_st_def)
  qed
qed

lemma keeps_permute:
  "2 \<le> cell h \<Longrightarrow> keeps (\<lambda>h. 2 \<le> cell h) (permute_102_contiguous_st h)"
  using keeps_new_tensor
  by (auto simp: keeps_def permute_102_contiguous_st_def split: list.splits)

lemma keeps_fill:
  "2 \<le> cell h \<Longrightarrow> keeps (\<lambda>h. 2 \<le> cell h) (masked_fill_st h msk v)"
  by (auto simp: keeps_def masked_fill_st_def split: sum.splits)

lemma keeps_body: "keeps (\<lambda>h. 2 \<le> cell h) (forward_st_body net x p q)"
  unfolding forward_st_body_def Let_def
  by (intro keeps_bind[OF keeps_new_tensor])
     (auto split: list.splits
           intro!: keeps_raise keeps_bind[OF keeps_bind[OF keeps_repeat]] keeps_permute
                   keeps_bind[OF keeps_reading] keeps_bind[OF keeps_fill] keeps_reading
           simp: squeeze_view_def)

lemma keepsD:
  "keeps Q m \<Longrightarrow> 2 \<le> length st \<Longrightarrow> m st = (r, st') \<Longrightarrow>
   2 \<le> length st' \<and> take 2 st' = take 2 st"
  by (auto simp: keeps_def)

lemma forward_st_frame: "snd (MetaTaskLstmNetwork_forward_st net x) = net"
proof -
  let ?st0 = "[elems (h0 net), elems (c0 net)]"
  let ?p = "\<lparr>cell = 0, dims = shape (h0 net)\<rparr>"
  let ?q = "\<lparr>cell = 1, dims = shape (c0 net)\<rparr>"
  obtain r st where b: "forward_st_body net x ?p ?q ?st0 = (r, st)"
    by (cases "forward_st_body net x ?p ?q ?st0")
  from keepsD[OF keeps_body _ b] have "take 2 st = take 2 ?st0" "2 \<le> length st"
    by simp_all
  then have "st ! 0 = elems (h0 net)" "st ! 1 = elems (c0 net)"
    by (cases st; cases "tl st"; simp)+
  then have "deref st ?p = h0 net" "deref st ?q = c0 net"
    by (simp_all add: deref_def)
  with b show ?thesis by (simp add: MetaTaskLstmNetwork_forward_st_def)
qed

lemma holds_grow: "holds st h T \<Longrightarrow> holds (st @ ys) h T"
  by (simp add: holds_def deref_def nth_append)

lemma tracks_grow: "tracks st A \<Longrightarrow> tracks (st @ ys) A"
  by (induction A) (auto simp: tracks_def holds_grow)

lemma tracks_member: "tracks st A \<Longrightarrow> (h, T) \<in> set A \<Longrightarrow> holds st h T"
  by (auto simp: tracks_def list_all_iff)

lemma tracks_Cons: "tracks st ((h, T) # A) \<longleftrightarrow> holds st h T \<and> tracks st A"
  by (simp add: tracks_def)

lemma simI:
  assumes "\<And>st. tracks st A \<Longrightarrow>
     (case m st of (r', st') \<Rightarrow>
           (grows \<longrightarrow> (\<exists>ys. st' = st @ ys)) \<and>
           (case r of Inl e \<Rightarrow> r' = Inl e | Inr T \<Rightarrow> (\<exists>h. r' = Inr h \<and> holds st' h T)))"
  shows "sim grows A m r"
  using assms by (simp add: sim_def)

lemma simD:
  assumes "sim grows A m r" "tracks st A" "m st = (r', st')"
  shows "(grows \<longrightarrow> (\<exists>ys. st' = st @ ys)) \<and>
         (case r of Inl e \<Rightarrow> r' = Inl e | Inr T \<Rightarrow> (\<exists>h. r' = Inr h \<and> holds st' h T))"
  using assms(1)[unfolded sim_def, rule_format, OF assms(2)] assms(3) by simp

lemma sim_reading:
  assumes "\<And>st. tracks st A \<Longrightarrow> g st = r"
  shows "sim True A (\<lambda>st. new_tensor (g st) st) r"
proof (rule simI)
  fix st assume "tracks st A"
  then have "g st = r" by (rule assms)
  then show "case new_tensor (g st) st of (r', st') \<Rightarrow>
           (True \<longrightarrow> (\<exists>ys. st' = st @ ys)) \<and>
           (case r of Inl e \<Rightarrow> r' = Inl e | Inr T \<Rightarrow> (\<exists>h. r' = Inr h \<and> holds st' h T))"
    by (cases r) (auto simp: new_tensor_def holds_def deref_def)
qed

lemma sim_new_tensor: "sim True A (new_tensor r) r"
  using sim_reading[of A "\<lambda>_. r" r] by simp

lemma sim_weaken: "sim True A m r \<Longrightarrow> sim False A m r"
  by (auto simp: sim_def split: prod.splits)

lemma sim_raise: "sim gr A (\<lambda>st. (Inl e, st)) (Inl e)"
  by (simp add: sim_def)

lemma sim_bind:
  assumes m: "sim True A m r"
    and f: "\<And>h T. r = Inr T \<Longrightarrow> dims h = shape T \<Longrightarrow> sim gr ((h, T) # A) (f h) (g T)"
  shows "sim gr A (bind_st m f) (bind_err r g)"
proof (rule simI)
  fix st assume tr: "tracks st A"
  obtain r1 st1 where m1: "m st = (r1, st1)" by (cases "m st")
  from simD[OF m tr m1] obtain ys where st1: "st1 = st @ ys"
    and res: "case r of Inl e \<Rightarrow> r1 = Inl e | Inr T \<Rightarrow> (\<exists>h. r1 = Inr h \<and> holds st1 h T)"
    by auto
  show "case bind_st m f st of (r', st') \<Rightarrow>
           (gr \<longrightarrow> (\<exists>ys. st' = st @ ys)) \<and>
           (case bind_err r g of Inl e \<Rightarrow> r' = Inl e
            | Inr T \<Rightarrow> (\<exists>h. r' = Inr h \<and> holds st' h T))"
  proof (cases r)
    case (Inl e)
    with res m1 st1 show ?thesis by (simp add: bind_st_def bind_err_def)
  next
    case (Inr T)
    with res obtain h where h: "r1 = Inr h" "holds st1 h T" by auto
    then have d: "dims h = shape T" by (auto simp: holds_def deref_def)
    from tr st1 h(2) have tr1: "tracks st1 ((h, T) # A)"
      by (simp add: tracks_Cons tracks_grow)
    obtain r2 st2 where f2: "f h st1 = (r2, st2)" by (cases "f h st1")
    from simD[OF f[OF Inr d] tr1 f2] st1
    have "(gr \<longrightarrow> (\<exists>zs. st2 = st @ zs)) \<and>
          (case g T of Inl e \<Rightarrow> r2 = Inl e | Inr T' \<Rightarrow> (\<exists>h'. r2 = Inr h' \<and> holds st2 h' T'))"
      by auto
    with m1 h(1) f2 Inr show ?thesis by (simp add: bind_st_def bind_err_def)
  qed
qed

lemma sim_repeat:
  assumes "(p, P) \<in> set A"
  shows "sim True A (repeat_b11_st p b) (repeat_b11 P b)"
  unfolding repeat_b11_st_def
proof (rule sim_reading)
  fix st assume "tracks st A"
  from tracks_member[OF this assms] show "repeat_b11 (deref st p) b = repeat_b11 P b"
    by (simp add: holds_def)
qed

lemma concat_rows_id:
  "length e = n * c \<Longrightarrow> concat (map (\<lambda>j. take c (drop (j * c) e)) [0..<n]) = e"
proof (induction n arbitrary: e rule: nat_induct)
  case 0
  then show ?case by simp
next
  case (Suc n)
  let ?e' = "take (n * c) e"
  have len: "length ?e' = n * c" using Suc.prems by simp
  have "concat (map (\<lambda>j. take c (drop (j * c) e)) [0..<n])
      = concat (map (\<lambda>j. take c (drop (j * c) ?e')) [0..<n])"
  proof (rule arg_cong[where f = concat], rule map_cong[OF refl])
    fix j assume "j \<in> set [0..<n]"
    then have "Suc j \<le> n" by simp
    then have "Suc j * c \<le> n * c" by (rule mult_le_mono1)
    then have "c \<le> n * c - j * c" by simp
    then show "take c (drop (j * c) e) = take c (drop (j * c) ?e')"
      by (simp add: drop_take min_def)
  qed
  also have "\<dots> = ?e'" using Suc.IH[OF len] .
  finally have "concat (map (\<lambda>j. take c (drop (j * c) e)) [0..<Suc n])
      = ?e' @ take c (drop (n * c) e)" by simp
  also have "take c (drop (n * c) e) = drop (n * c) e" using Suc.prems by simp
  finally show ?case by simp
qed

lemma permute_102_keeps_order:
  assumes "shape R = [a, b, c]" "length (elems R) = a * b * c" "a \<le> 1 \<or> b \<le> 1 \<or> c = 0"
  shows "permute_102 R = Inr \<lparr>shape = [b, a, c], elems = elems R\<rparr>"
proof -
  let ?e = "elems R"
  let ?p = "concat (map (\<lambda>j. concat (map (\<lambda>i. take c (drop ((i * b + j) * c) ?e)) [0..<a])) [0..<b])"
  have "?p = ?e"
  proof -
    consider "a = 0" | "b = 0" | "c = 0" | "a = 1" | "b = 1"
      using assms(3) by (cases a; cases b) auto
    then show ?thesis
    proof cases
      case 1
      then show ?thesis using assms(2) by simp
    next
      case 2
      then show ?thesis using assms(2) by simp
    next
      case 3
      then show ?thesis using assms(2) by simp
    next
      case 4
      then have "?p = concat (map (\<lambda>j. take c (drop (j * c) ?e)) [0..<b])" by simp
      also have "\<dots> = ?e" using assms(2) 4 by (intro concat_rows_id) simp
      finally show ?thesis .
    next
      case 5
      then have "?p = concat (map (\<lambda>i. take c (drop (i * c) ?e)) [0..<a])" by simp
      also have "\<dots> = ?e" using assms(2) 5 by (intro concat_rows_id) simp
      finally show ?thesis .
    qed
  qed
  then show ?thesis using assms(1) by (simp add: permute_102_def)
qed

lemma sim_permute:
  assumes mem: "(h, R) \<in> set A" and wf: "wf_tensor R"
  shows "sim True A (permute_102_contiguous_st h) (permute_102 R)"
proof (rule simI)
  fix st assume tr: "tracks st A"
  from tracks_member[OF tr mem] have h: "cell h < length st" "deref st h = R"
    by (simp_all add: holds_def)
  then have d: "dims h = shape R" and e: "st ! cell h = elems R" by (auto simp: deref_def)
  show "case permute_102_contiguous_st h st of (r', st') \<Rightarrow>
           (True \<longrightarrow> (\<exists>ys. st' = st @ ys)) \<and>
           (case permute_102 R of Inl e \<Rightarrow> r' = Inl e
            | Inr T \<Rightarrow> (\<exists>h. r' = Inr h \<and> holds st' h T))"
  proof (cases "\<exists>a b c. shape R = [a, b, c]")
    case False
    then have "permute_102 R = Inl RuntimeError"
      by (auto simp: permute_102_def split: list.splits)
    moreover from False d have "permute_102_contiguous_st h st = (Inl RuntimeError, st)"
      by (auto simp: permute_102_contiguous_st_def split: list.splits)
    ultimately show ?thesis by simp
  next
    case True
    then obtain a b c where sh: "shape R = [a, b, c]" by blast
    show ?thesis
    proof (cases "a \<le> 1 \<or> b \<le> 1 \<or> c = 0")
      case True
      from wf sh have "length (elems R) = a * b * c" by (simp add: wf_tensor_def)
      from permute_102_keeps_order[OF sh this True]
      have p: "permute_102 R = Inr \<lparr>shape = [b, a, c], elems = elems R\<rparr>" .
      from True d sh have "permute_102_contiguous_st h st = (Inr \<lparr>cell = cell h, dims = [b, a, c]\<rparr>, st)"
        by (simp add: permute_102_contiguous_st_def)
      with p h(1) e show ?thesis by (simp add: holds_def deref_def)
    next
      case False
      with d sh have "permute_102_contiguous_st h st = new_tensor (permute_102 R) st"
        by (simp add: permute_102_contiguous_st_def h(2))
      moreover have "case new_tensor (permute_102 R) st of (r', st') \<Rightarrow>
           (True \<longrightarrow> (\<exists>ys. st' = st @ ys)) \<and>
           (case permute_102 R of Inl e \<Rightarrow> r' = Inl e
            | Inr T \<Rightarrow> (\<exists>h. r' = Inr h \<and> holds st' h T))"
        using sim_new_tensor[of A "permute_102 R"] tr by (simp add: sim_def)
      ultimately show ?thesis by simp
    qed
  qed
qed

lemma repeat_b11_wf:
  assumes "wf_tensor P" "length (shape P) = 2" "repeat_b11 P b = Inr R"
  shows "wf_tensor R"
proof -
  from assms(2) obtain l k where sh: "shape P = [l, k]"
    by (cases "shape P"; cases "tl (shape P)"; cases "tl (tl (shape P))") auto
  have "replicate (3 - length (shape P)) (1::nat) = [1]" using assms(2) by (simp add: numeral_3_eq_3)
  with assms(3) sh have "R = \<lparr>shape = [b, l, k], elems = concat (replicate b (elems P))\<rparr>"
    by (simp add: repeat_b11_def Let_def split: if_splits)
  moreover have "length (concat (replicate b (elems P))) = b * length (elems P)"
    by (induction b) simp_all
  ultimately show ?thesis using assms(1) sh by (simp add: wf_tensor_def)
qed

lemma sim_initial_state:
  assumes mem: "(p, P) \<in> set A" and wf: "wf_tensor P" "length (shape P) = 2"
  shows "sim True A (bind_st (repeat_b11_st p b) permute_102_contiguous_st) (initial_state P b)"
proof -
  have "initial_state P b = bind_err (repeat_b11 P b) permute_102"
    by (cases "repeat_b11 P b"; cases "permute_102 (projr (repeat_b11 P b))")
       (simp_all add: initial_state_def bind_err_def contiguous_def)
  moreover have "sim True A (bind_st (repeat_b11_st p b) permute_102_contiguous_st)
                   (bind_err (repeat_b11 P b) permute_102)"
  proof (rule sim_bind[OF sim_repeat[OF mem]])
    fix h R assume "repeat_b11 P b = Inr R"
    from repeat_b11_wf[OF wf this] show "sim True ((h, R) # A) (permute_102_contiguous_st h) (permute_102 R)"
      by (intro sim_permute) simp_all
  qed
  ultimately show ?thesis by simp
qed

lemma forward_chain:
  "fst (MetaTaskLstmNetwork_forward net x) =
     bind_err (Embedding_forward (embedding net) x) (\<lambda>e.
       case shape e of
         [b, t, d] \<Rightarrow>
           bind_err (initial_state (h0 net) b) (\<lambda>h.
           bind_err (initial_state (c0 net) b) (\<lambda>c.
           bind_err (lstm net e (h, c)) (forward_tail net (eq_zero x))))
       | _ \<Rightarrow> Inl ValueError)"
  by (auto simp: MetaTaskLstmNetwork_forward_def lstm_encode_def forward_tail_def bind_err_def
      Let_def split: sum.splits list.splits)

lemma masked_fill_inplace_shape:
  "masked_fill_inplace self msk v = Inr F \<Longrightarrow> shape F = shape self"
  by (auto simp: masked_fill_inplace_def split: if_splits)

lemma sim_fill_softmax:
  "sim False ((out, T) # A)
     (bind_st (masked_fill_st (squeeze_view out) msk v)
        (\<lambda>filled st. new_tensor (softmax (deref st filled) k) st))
     (bind_err (masked_fill_inplace (squeeze T) msk v) (\<lambda>filled. softmax filled k))"
proof (rule simI)
  fix st assume "tracks st ((out, T) # A)"
  then have h: "cell out < length st" "deref st out = T"
    by (simp_all add: tracks_Cons holds_def)
  then have sq: "deref st (squeeze_view out) = squeeze T"
    by (auto simp: deref_def squeeze_view_def squeeze_def)
  show "case bind_st (masked_fill_st (squeeze_view out) msk v)
               (\<lambda>filled st. new_tensor (softmax (deref st filled) k) st) st of
        (r', st') \<Rightarrow>
           (False \<longrightarrow> (\<exists>ys. st' = st @ ys)) \<and>
           (case bind_err (masked_fill_inplace (squeeze T) msk v) (\<lambda>filled. softmax filled k) of
              Inl e \<Rightarrow> r' = Inl e
            | Inr T \<Rightarrow> (\<exists>h. r' = Inr h \<and> holds st' h T))"
  proof (cases "masked_fill_inplace (squeeze T) msk v")
    case (Inl e)
    then show ?thesis by (simp add: bind_st_def masked_fill_st_def sq bind_err_def)
  next
    case (Inr F)
    define st1 where "st1 = st[cell (squeeze_view out) := elems F]"
    from masked_fill_inplace_shape[OF Inr] have "shape F = filter (\<lambda>d. d \<noteq> 1) (dims out)"
      using h(2) by (auto simp: squeeze_def deref_def)
    then have d: "deref st1 (squeeze_view out) = F"
      using h(1) by (simp add: deref_def squeeze_view_def st1_def)
    have "masked_fill_st (squeeze_view out) msk v st = (Inr (squeeze_view out), st1)"
      using Inr by (simp only: masked_fill_st_def sq st1_def sum.case)
    then have "bind_st (masked_fill_st (squeeze_view out) msk v)
               (\<lambda>filled st. new_tensor (softmax (deref st filled) k) st) st
        = new_tensor (softmax (deref st1 (squeeze_view out)) k) st1"
      by (simp only: bind_st_def prod.case sum.case)
    then have "bind_st (masked_fill_st (squeeze_view out) msk v)
               (\<lambda>filled st. new_tensor (softmax (deref st filled) k) st) st
        = new_tensor (softmax F k) st1"
      by (simp only: d)
    then show ?thesis
      using Inr by (cases "softmax F k") (auto simp: new_tensor_def bind_err_def holds_def deref_def)
  qed
qed

lemma sim_tail:
  assumes "(lo, LO) \<in> set A"
  shows "sim False A
     (if use_softmax net then
        bind_st (\<lambda>st. new_tensor (Linear_forward (out_net net) (deref st lo)) st) (\<lambda>out.
        bind_st (masked_fill_st (squeeze_view out) msk (- 98765)) (\<lambda>filled.
        (\<lambda>st. new_tensor (softmax (deref st filled) 1) st)))
      else
        bind_st (\<lambda>st. new_tensor (Linear_forward (out_net net) (deref st lo)) st) (\<lambda>out.
        (\<lambda>st. new_tensor (Inr (torch_abs (deref st (squeeze_view out)))) st)))
     (forward_tail net msk LO)"
proof -
  have lin: "sim True A (\<lambda>st. new_tensor (Linear_forward (out_net net) (deref st lo)) st)
               (Linear_forward (out_net net) LO)"
  proof (rule sim_reading)
    fix st assume "tracks st A"
    from tracks_member[OF this assms]
    show "Linear_forward (out_net net) (deref st lo) = Linear_forward (out_net net) LO"
      by (simp add: holds_def)
  qed
  have abs: "sim False ((out, T) # A)
      (\<lambda>st. new_tensor (Inr (torch_abs (deref st (squeeze_view out)))) st)
      (Inr (torch_abs (squeeze T)))" for out T
  proof (rule sim_weaken, rule sim_reading)
    fix st assume "tracks st ((out, T) # A)"
    then have "deref st out = T" by (simp add: tracks_Cons holds_def)
    then have "deref st (squeeze_view out) = squeeze T"
      by (auto simp: deref_def squeeze_view_def squeeze_def)
    then show "Inr (torch_abs (deref st (squeeze_view out))) = Inr (torch_abs (squeeze T))"
      by simp
  qed
  show ?thesis
    unfolding forward_tail_def
    by (auto intro!: sim_bind[OF lin] sim_fill_softmax abs)
qed

lemma sim_lstm:
  assumes "(e, E) \<in> set A" "(h, H) \<in> set A" "(c, C) \<in> set A"
  shows "sim True A (\<lambda>st. new_tensor (lstm net (deref st e) (deref st h, deref st c)) st)
           (lstm net E (H, C))"
proof (rule sim_reading)
  fix st assume tr: "tracks st A"
  from assms[THEN tracks_member[OF tr]]
  show "lstm net (deref st e) (deref st h, deref st c) = lstm net E (H, C)"
    by (simp add: holds_def)
qed

lemma sim_body:
  assumes wf: "wf_tensor (h0 net)" "length (shape (h0 net)) = 2"
    "wf_tensor (c0 net)" "length (shape (c0 net)) = 2"
  shows "sim False [(p, h0 net), (q, c0 net)] (forward_st_body net x p q)
     (fst (MetaTaskLstmNetwork_forward net x))"
  unfolding forward_chain forward_st_body_def Let_def
  apply (rule sim_bind[OF sim_new_tensor])
  apply (simp split: list.split)
  apply (intro conjI allI impI sim_raise)
  apply (rule sim_bind[OF sim_initial_state[OF _ wf(1,2)]])
   apply simp
  apply (rule sim_bind[OF sim_initial_state[OF _ wf(3,4)]])
   apply simp
  apply (rule sim_bind[OF sim_lstm])
     apply simp
    apply simp
   apply simp
  apply (rule sim_tail)
  apply simp
  done

lemma forward_st_result:
  assumes "wf_MetaTaskLstmNetwork net"
  shows "fst (MetaTaskLstmNetwork_forward_st net x) = fst (MetaTaskLstmNetwork_forward net x)"
proof -
  let ?st0 = "[elems (h0 net), elems (c0 net)]"
  let ?p = "\<lparr>cell = 0, dims = shape (h0 net)\<rparr>"
  let ?q = "\<lparr>cell = 1, dims = shape (c0 net)\<rparr>"
  from assms have wf: "wf_tensor (h0 net)" "length (shape (h0 net)) = 2"
    "wf_tensor (c0 net)" "length (shape (c0 net)) = 2"
    by (simp_all add: wf_MetaTaskLstmNetwork_def)
  obtain r st where b: "forward_st_body net x ?p ?q ?st0 = (r, st)"
    by (cases "forward_st_body net x ?p ?q ?st0")
  have tr: "tracks ?st0 [(?p, h0 net), (?q, c0 net)]"
    by (simp add: tracks_def holds_def deref_def)
  from simD[OF sim_body[OF wf] tr b]
  have "case fst (MetaTaskLstmNetwork_forward net x) of Inl e \<Rightarrow> r = Inl e
        | Inr T \<Rightarrow> (\<exists>h. r = Inr h \<and> holds st h T)" by simp
  then have "map_sum id (deref st) r = fst (MetaTaskLstmNetwork_forward net x)"
    by (cases "fst (MetaTaskLstmNetwork_forward net x)") (auto simp: holds_def)
  with b show ?thesis by (simp add: MetaTaskLstmNetwork_forward_st_def)
qed

lemma length_concat_replicate: "length (concat (replicate t r)) = t * length r"
  by (induction t) simp_all

lemma state_reading_lstm_wf:
  assumes "shape e = [b, t, d]" "state_reading_lstm n e st = Inr y"
  shows "wf_tensor y \<and> shape y = [b, t, n]"
proof -
  from assms obtain L where sh: "shape (fst st) = [L, b, n]" and L: "0 < L"
    and wf: "wf_tensor (fst st)"
    and y: "y = \<lparr>shape = [b, t, n],
                 elems = concat (map (\<lambda>i. concat (replicate t
                                   (take n (drop (((L - 1) * b + i) * n) (elems (fst st))))))
                                 [0..<b])\<rparr>"
    by (auto simp: state_reading_lstm_def split: list.splits if_splits)
  from wf sh have len: "length (elems (fst st)) = L * b * n" by (simp add: wf_tensor_def)
  have row: "length (take n (drop (((L - 1) * b + i) * n) (elems (fst st)))) = n" if "i < b" for i
  proof -
    from L have "(L - 1) * b + b = L * b" by (cases L) simp_all
    with that have "Suc ((L - 1) * b + i) \<le> L * b" by simp
    then have "Suc ((L - 1) * b + i) * n \<le> L * b * n" by (rule mult_le_mono1)
    then have "n \<le> L * b * n - ((L - 1) * b + i) * n" by simp
    then show ?thesis using len by simp
  qed
  have "length (concat (map (\<lambda>i. concat (replicate t
            (take n (drop (((L - 1) * b + i) * n) (elems (fst st)))))) [0..<b])) = b * (t * n)"
  proof (rule length_concat_blocks, intro allI impI)
    fix i assume "i < b"
    from row[OF this] show "length (concat (replicate t
            (take n (drop (((L - 1) * b + i) * n) (elems (fst st)))))) = t * n"
      by (simp only: length_concat_replicate)
  qed
  with y show ?thesis by (simp add: wf_tensor_def)
qed

lemma seeded_lstm_net_wf: "wf_MetaTaskLstmNetwork seeded_lstm_net"
proof -
  have l: "lstm seeded_lstm_net = state_reading_lstm 2"
    and f: "in_features (out_net seeded_lstm_net) = 2"
    by (simp_all add: seeded_lstm_net_def MetaTaskLstmNetwork_init_def const_linear_def)
  have 1: "\<forall>e st y b t d. shape e = [b, t, d] \<and> lstm seeded_lstm_net e st = Inr y \<longrightarrow>
         wf_tensor y \<and> shape y = [b, t, in_features (out_net seeded_lstm_net)]"
    unfolding l f using state_reading_lstm_wf by blast
  have 2: "num_embeddings (embedding seeded_lstm_net) = 7 \<and>
      length (shape (h0 seeded_lstm_net)) = 2 \<and> wf_tensor (h0 seeded_lstm_net) \<and>
      length (shape (c0 seeded_lstm_net)) = 2 \<and> wf_tensor (c0 seeded_lstm_net) \<and>
      hd (shape (h0 seeded_lstm_net)) = hd (shape (c0 seeded_lstm_net)) \<and>
      last (shape (h0 seeded_lstm_net)) = in_features (out_net seeded_lstm_net) \<and>
      out_features (out_net seeded_lstm_net) = 1 \<and> wf_Linear (out_net seeded_lstm_net)"
    by (simp add: seeded_lstm_net_def MetaTaskLstmNetwork_init_def
        const_linear_def wf_Linear_def wf_tensor_def)
  from 1 2 show ?thesis unfolding wf_MetaTaskLstmNetwork_def by (intro conjI) blast+
qed

text \<open>
  C9. \<open>forward\<close> leaves the stored \<open>h0\<close> and \<open>c0\<close> as they were, whatever the input and
  also when it raises: the storages of the two parameters hold after the call what they
  held before, so that a second call starts from the same module. On a network as the
  constructor builds it, the call on the storages returns what \<open>forward\<close> on values returns.
  And for a batch of \<open>b\<close> sequences that the embedding accepts, whatever \<open>b\<close> is, the
  result of \<open>forward\<close> is the head applied to the output of the recurrent layer run on the
  embedded batch from the pair of initial states \<open>(h, c)\<close>, in which the row of every layer
  \<open>l\<close> for every sequence \<open>j\<close> of the batch is the row \<open>l\<close> of the stored state.
\<close>

theorem forward_keeps_and_seeds_initial_states:
  "snd (MetaTaskLstmNetwork_forward_st net x) = net
   \<and> MetaTaskLstmNetwork_forward_st (snd (MetaTaskLstmNetwork_forward_st net x)) x'
       = MetaTaskLstmNetwork_forward_st net x'
   \<and> (wf_MetaTaskLstmNetwork net \<longrightarrow>
        MetaTaskLstmNetwork_forward_st net x = MetaTaskLstmNetwork_forward net x)
   \<and> (wf_MetaTaskLstmNetwork net \<and> shape (h0 net) = [L, H] \<and> shape (c0 net) = [L, H']
      \<and> shape x = [b, t] \<and> Embedding_forward (embedding net) x = Inr e \<longrightarrow>
        (\<exists>h c. initial_state (h0 net) b = Inr h \<and> initial_state (c0 net) b = Inr c
           \<and> shape h = [L, b, H] \<and> shape c = [L, b, H']
           \<and> (\<forall>l<L. \<forall>j<b.
                 take H (drop ((l * b + j) * H) (elems h)) = take H (drop (l * H) (elems (h0 net)))
               \<and> take H' (drop ((l * b + j) * H') (elems c)) = take H' (drop (l * H') (elems (c0 net))))
           \<and> fst (MetaTaskLstmNetwork_forward_st net x) =
               bind_err (lstm net e (h, c)) (\<lambda>lstm_out.
                 if use_softmax net then
                   bind_err (Linear_forward (out_net net) lstm_out) (\<lambda>out.
                   bind_err (masked_fill_inplace (squeeze out) (eq_zero x) (- 98765)) (\<lambda>filled.
                   softmax filled 1))
                 else
                   bind_err (Linear_forward (out_net net) lstm_out) (\<lambda>out.
                   Inr (torch_abs (squeeze out))))))"
proof -
  have 1: "snd (MetaTaskLstmNetwork_forward_st net x) = net"
    by (rule forward_st_frame)
  have 2: "MetaTaskLstmNetwork_forward_st (snd (MetaTaskLstmNetwork_forward_st net x)) x'
       = MetaTaskLstmNetwork_forward_st net x'"
    by (simp only: 1)
  have 3: "MetaTaskLstmNetwork_forward_st net x = MetaTaskLstmNetwork_forward net x"
    if wf: "wf_MetaTaskLstmNetwork net"
  proof (rule prod_eqI)
    show "fst (MetaTaskLstmNetwork_forward_st net x) = fst (MetaTaskLstmNetwork_forward net x)"
      by (rule forward_st_result[OF wf])
    show "snd (MetaTaskLstmNetwork_forward_st net x) = snd (MetaTaskLstmNetwork_forward net x)"
      by (simp add: 1 MetaTaskLstmNetwork_forward_def)
  qed
  have 4: "\<exists>h c. initial_state (h0 net) b = Inr h \<and> initial_state (c0 net) b = Inr c
           \<and> shape h = [L, b, H] \<and> shape c = [L, b, H']
           \<and> (\<forall>l<L. \<forall>j<b.
                 take H (drop ((l * b + j) * H) (elems h)) = take H (drop (l * H) (elems (h0 net)))
               \<and> take H' (drop ((l * b + j) * H') (elems c)) = take H' (drop (l * H') (elems (c0 net))))
           \<and> fst (MetaTaskLstmNetwork_forward_st net x) =
               bind_err (lstm net e (h, c)) (\<lambda>lstm_out.
                 if use_softmax net then
                   bind_err (Linear_forward (out_net net) lstm_out) (\<lambda>out.
                   bind_err (masked_fill_inplace (squeeze out) (eq_zero x) (- 98765)) (\<lambda>filled.
                   softmax filled 1))
                 else
                   bind_err (Linear_forward (out_net net) lstm_out) (\<lambda>out.
                   Inr (torch_abs (squeeze out))))"
    if wf: "wf_MetaTaskLstmNetwork net" and h: "shape (h0 net) = [L, H]"
      and c: "shape (c0 net) = [L, H']" and x: "shape x = [b, t]"
      and e: "Embedding_forward (embedding net) x = Inr e"
  proof -
    from wf have "wf_tensor (h0 net)" "wf_tensor (c0 net)"
      by (simp_all add: wf_MetaTaskLstmNetwork_def)
    from initial_state_rows[OF this(1) h, of b] initial_state_rows[OF this(2) c, of b]
    obtain sh sc where hc: "initial_state (h0 net) b = Inr sh" "initial_state (c0 net) b = Inr sc"
      "shape sh = [L, b, H]" "shape sc = [L, b, H']"
      and rows: "\<forall>l<L. \<forall>j<b.
                 take H (drop ((l * b + j) * H) (elems sh)) = take H (drop (l * H) (elems (h0 net)))
               \<and> take H' (drop ((l * b + j) * H') (elems sc)) = take H' (drop (l * H') (elems (c0 net)))"
      by blast
    from Embedding_forward_Inr[OF e] x have "shape e = [b, t, embedding_dim (embedding net)]"
      by simp
    then have "fst (MetaTaskLstmNetwork_forward net x)
        = bind_err (lstm net e (sh, sc)) (forward_tail net (eq_zero x))"
      by (simp add: forward_chain e hc bind_err_def)
    then have "fst (MetaTaskLstmNetwork_forward_st net x)
        = bind_err (lstm net e (sh, sc)) (forward_tail net (eq_zero x))"
      by (simp only: forward_st_result[OF wf])
    then have "fst (MetaTaskLstmNetwork_forward_st net x) =
               bind_err (lstm net e (sh, sc)) (\<lambda>lstm_out.
                 if use_softmax net then
                   bind_err (Linear_forward (out_net net) lstm_out) (\<lambda>out.
                   bind_err (masked_fill_inplace (squeeze out) (eq_zero x) (- 98765)) (\<lambda>filled.
                   softmax filled 1))
                 else
                   bind_err (Linear_forward (out_net net) lstm_out) (\<lambda>out.
                   Inr (torch_abs (squeeze out))))"
      by (simp only: forward_tail_def[abs_def])
    with hc rows show ?thesis by blast
  qed
  from 1 2 3 4 show ?thesis by blast
qed

subsection \<open>Weights without softmax\<close>

lemma torch_abs_nonneg: "\<forall>v\<in>set (elems (torch_abs T)). 0 \<le> v"
  by (auto simp: torch_abs_def)

text \<open>
  C8. Without softmax every entry of the result of either weighting network is at least 0.
  No mask is applied: the result is the absolute value of the squeezed scores, and a
  position whose input is 0 can have a weight that is not 0, as the positions 1 and 2 of
  the batch of the sequence network and the first row of the batch of the vector network
  below, all of weight 1.
\<close>

theorem abs_weights_nonneg_and_unmasked:
  "(\<not> use_softmax net \<and> fst (MetaTaskLstmNetwork_forward net x) = Inr y \<longrightarrow>
      (\<forall>v\<in>set (elems y). 0 \<le> v))
   \<and> (\<not> mlp_use_softmax m \<and> MetaTaskMLPNetwork_forward m u = Inr w \<longrightarrow>
      (\<forall>v\<in>set (elems w). 0 \<le> v))
   \<and> (\<not> use_softmax net \<longrightarrow>
      fst (MetaTaskLstmNetwork_forward net x) =
        bind_err (lstm_scores net x) (\<lambda>out. Inr (torch_abs (squeeze out))))
   \<and> (\<not> mlp_use_softmax m \<longrightarrow>
      MetaTaskMLPNetwork_forward m u =
        bind_err (mlp_forward (mlp m) u) (\<lambda>out. Inr (torch_abs (squeeze out))))
   \<and> fst (MetaTaskLstmNetwork_forward (flat_lstm_net False 1) \<lparr>shape = [2, 2], elems = [1, 0, 0, 2]\<rparr>)
       = Inr \<lparr>shape = [2, 2], elems = [1, 1, 1, 1]\<rparr>
   \<and> MetaTaskMLPNetwork_forward (flat_mlp_net False) \<lparr>shape = [2, 1], elems = [0, 3]\<rparr>
       = Inr \<lparr>shape = [2], elems = [1, 1]\<rparr>"
proof -
  have 1: "\<forall>v\<in>set (elems y). 0 \<le> v"
    if "\<not> use_softmax net" "fst (MetaTaskLstmNetwork_forward net x) = Inr y"
    using that torch_abs_nonneg
    by (auto simp: MetaTaskLstmNetwork_forward_def bind_err_Inr_iff)
  have 2: "\<forall>v\<in>set (elems w). 0 \<le> v"
    if "\<not> mlp_use_softmax m" "MetaTaskMLPNetwork_forward m u = Inr w"
    using that torch_abs_nonneg
    by (auto simp: MetaTaskMLPNetwork_forward_def Let_def bind_err_Inr_iff)
  have 3: "fst (MetaTaskLstmNetwork_forward net x) =
        bind_err (lstm_scores net x) (\<lambda>out. Inr (torch_abs (squeeze out)))"
    if "\<not> use_softmax net"
    using that
    by (cases "lstm_encode net x")
       (auto simp: MetaTaskLstmNetwork_forward_def lstm_scores_def bind_err_def)
  have 4: "MetaTaskMLPNetwork_forward m u =
        bind_err (mlp_forward (mlp m) u) (\<lambda>out. Inr (torch_abs (squeeze out)))"
    if "\<not> mlp_use_softmax m"
    using that by (simp add: MetaTaskMLPNetwork_forward_def Let_def)
  have 5: "fst (MetaTaskLstmNetwork_forward (flat_lstm_net False 1) \<lparr>shape = [2, 2], elems = [1, 0, 0, 2]\<rparr>)
       = Inr \<lparr>shape = [2, 2], elems = [1, 1, 1, 1]\<rparr>"
    by (simp add: MetaTaskLstmNetwork_forward_def flat_lstm_net_def MetaTaskLstmNetwork_init_def
        lstm_encode_def Embedding_forward_def eq_zero_def initial_state_def repeat_b11_def
        permute_102_def contiguous_def zero_lstm_def Linear_forward_def const_linear_def
        rows_def dot_def squeeze_def torch_abs_def bind_err_def Let_def upt_rec)
  have 6: "MetaTaskMLPNetwork_forward (flat_mlp_net False) \<lparr>shape = [2, 1], elems = [0, 3]\<rparr>
       = Inr \<lparr>shape = [2], elems = [1, 1]\<rparr>"
    by (simp add: MetaTaskMLPNetwork_forward_def flat_mlp_net_def MetaTaskMLPNetwork_init_def
        mlp_forward_def ReLU_def eq_zero_def Linear_forward_def const_linear_def
        rows_def dot_def squeeze_def torch_abs_def bind_err_def Let_def upt_rec)
  from 1 2 3 4 5 6 show ?thesis by blast
qed

subsection \<open>Weights with softmax\<close>

lemma index_in_range: "i < b \<Longrightarrow> k < t \<Longrightarrow> i * t + k < b * (t::nat)"
proof -
  assume "i < b" "k < t"
  then have "i * t + k < i * t + t" by simp
  also have "\<dots> = Suc i * t" by simp
  also have "\<dots> \<le> b * t" using \<open>i < b\<close> by (intro mult_le_mono1) simp
  finally show ?thesis .
qed

lemma Linear_forward_length:
  assumes "wf_Linear L" "Linear_forward L x = Inr y"
  shows "length (elems y) = prod_list (butlast (shape x)) * out_features L"
proof -
  let ?n = "prod_list (butlast (shape x))"
  let ?f = "\<lambda>i. map2 (\<lambda>w b. dot w (take (in_features L) (drop (i * in_features L) (elems x))) + b)
                  (weight L) (bias L)"
  from assms(2) have "elems y = concat (map ?f [0..<?n])"
    by (auto simp: Linear_forward_def rows_def comp_def split: if_splits)
  moreover have "\<forall>i<?n. length (?f i) = out_features L"
    using assms(1) by (simp add: wf_Linear_def)
  ultimately show ?thesis by (simp add: length_concat_blocks)
qed

lemma softmax_2d:
  assumes "shape T = [b, t]"
  shows "softmax T 1 =
     Inr \<lparr>shape = [b, t],
          elems = map (\<lambda>idx. exp (elems T ! idx) /
                               (\<Sum>k\<leftarrow>[0..<t]. exp (elems T ! (idx - idx mod t + k))))
                    [0..<length (elems T)]\<rparr>"
  using assms by (simp add: softmax_def Let_def)

lemma mask_at_2d:
  assumes "shape msk = [b, t]" "b \<noteq> 1" "t \<noteq> 1"
  shows "mask_at msk [b, t] idx = elems msk ! idx"
  using assms by (simp add: mask_at_def)

lemma masked_fill_inplace_2d:
  assumes "shape self = [b, t]" "shape msk = [b, t]" "b \<noteq> 1" "t \<noteq> 1"
  shows "masked_fill_inplace self msk v =
     Inr \<lparr>shape = [b, t],
          elems = map (\<lambda>idx. if elems msk ! idx then v else elems self ! idx)
                    [0..<length (elems self)]\<rparr>"
  using assms by (simp add: masked_fill_inplace_def broadcastable_to_def mask_at_2d)

lemma exp_minus_20: "exp (- 20 :: real) < 1 / 10 ^ 6"
proof -
  have "(2::real) \<le> exp 1" using exp_ge_add_one_self[of "1::real"] by simp
  then have "(2::real) ^ 20 \<le> exp 1 ^ 20" by (intro power_mono) simp_all
  also have "exp (1::real) ^ 20 = exp 20" using exp_of_nat_mult[of 20 "1::real"] by simp
  finally have "(10::real) ^ 6 < exp 20" by simp
  then have "1 / exp (20::real) < 1 / 10 ^ 6" by (intro divide_strict_left_mono) simp_all
  then show ?thesis by (simp add: exp_minus field_simps)
qed

lemma lstm_scores_Inr:
  assumes wf: "wf_MetaTaskLstmNetwork net" and sc: "lstm_scores net x = Inr out"
    and x: "shape x = [b, t]"
  shows "\<exists>lo. lstm_encode net x = Inr (eq_zero x, lo) \<and> Linear_forward (out_net net) lo = Inr out"
    and "shape out = [b, t, 1]" and "length (elems out) = b * t"
proof -
  from sc obtain msk lo where enc: "lstm_encode net x = Inr (msk, lo)"
    and lin: "Linear_forward (out_net net) lo = Inr out"
    by (auto simp: lstm_scores_def bind_err_Inr_iff)
  from lstm_encode_Inr[OF enc] wf x
  have msk: "msk = eq_zero x" and lo: "shape lo = [b, t, in_features (out_net net)]"
    by auto
  from wf have o1: "out_features (out_net net) = 1" and wl: "wf_Linear (out_net net)"
    by (simp_all add: wf_MetaTaskLstmNetwork_def)
  show "\<exists>lo. lstm_encode net x = Inr (eq_zero x, lo) \<and> Linear_forward (out_net net) lo = Inr out"
    using enc lin msk by blast
  show "shape out = [b, t, 1]"
    using Linear_forward_Inr[OF lin] lo o1 by simp
  show "length (elems out) = b * t"
    using Linear_forward_length[OF wl lin] lo o1 by simp
qed

lemma softmax_forward_value:
  assumes wf: "wf_MetaTaskLstmNetwork net" and sm: "use_softmax net"
    and x: "wf_tensor x" "shape x = [b, t]" and b: "b \<noteq> 1" and t: "2 \<le> t"
    and sc: "lstm_scores net x = Inr out"
  shows "fst (MetaTaskLstmNetwork_forward net x) =
     Inr \<lparr>shape = [b, t],
          elems = map (\<lambda>idx. exp (filled_score x out idx) /
                               (\<Sum>k\<leftarrow>[0..<t]. exp (filled_score x out (idx - idx mod t + k))))
                    [0..<b * t]\<rparr>"
proof -
  from lstm_scores_Inr[OF wf sc x(2)] obtain lo where
    enc: "lstm_encode net x = Inr (eq_zero x, lo)"
    and lin: "Linear_forward (out_net net) lo = Inr out"
    and so: "shape out = [b, t, 1]" and lo: "length (elems out) = b * t"
    by blast
  have lx: "length (elems x) = b * t" using x by (simp add: wf_tensor_def)
  have t1: "t \<noteq> 1" using t by simp
  have sq: "shape (squeeze out) = [b, t]" "elems (squeeze out) = elems out"
    using so b t1 by (simp_all add: squeeze_def)
  have sm_shape: "shape (eq_zero x) = [b, t]" using x by (simp add: eq_zero_def)
  let ?filled = "\<lparr>shape = [b, t],
          elems = map (\<lambda>idx. if elems (eq_zero x) ! idx then - 98765 else elems (squeeze out) ! idx)
                    [0..<length (elems (squeeze out))]\<rparr>"
  have mf: "masked_fill_inplace (squeeze out) (eq_zero x) (- 98765) = Inr ?filled"
    using sq(1) sm_shape b t1 by (rule masked_fill_inplace_2d)
  have fe: "elems ?filled = map (filled_score x out) [0..<b * t]"
    using lx by (simp add: sq lo filled_score_def eq_zero_def)
  have nth: "elems ?filled ! idx = filled_score x out idx" if "idx < b * t" for idx
    unfolding fe using that by simp
  have "softmax ?filled 1 =
     Inr \<lparr>shape = [b, t],
          elems = map (\<lambda>idx. exp (elems ?filled ! idx) /
                               (\<Sum>k\<leftarrow>[0..<t]. exp (elems ?filled ! (idx - idx mod t + k))))
                    [0..<length (elems ?filled)]\<rparr>"
    by (rule softmax_2d) simp
  also have "length (elems ?filled) = b * t" by (simp add: sq lo)
  also have "map (\<lambda>idx. exp (elems ?filled ! idx) /
                     (\<Sum>k\<leftarrow>[0..<t]. exp (elems ?filled ! (idx - idx mod t + k)))) [0..<b * t]
     = map (\<lambda>idx. exp (filled_score x out idx) /
                     (\<Sum>k\<leftarrow>[0..<t]. exp (filled_score x out (idx - idx mod t + k)))) [0..<b * t]"
  proof (rule map_cong[OF refl])
    fix idx assume "idx \<in> set [0..<b * t]"
    then have idx: "idx < b * t" by simp
    have row: "idx - idx mod t + k < b * t" if "k < t" for k
    proof -
      have "idx - idx mod t = (idx div t) * t" by (simp add: minus_mod_eq_div_mult)
      moreover have "idx div t < b" using idx by (simp add: less_mult_imp_div_less)
      ultimately show ?thesis using that by (simp add: index_in_range)
    qed
    have "map (\<lambda>k. exp (elems ?filled ! (idx - idx mod t + k))) [0..<t]
        = map (\<lambda>k. exp (filled_score x out (idx - idx mod t + k))) [0..<t]"
      using row by (intro map_cong[OF refl]) (simp add: nth del: tensor.simps)
    then show "exp (elems ?filled ! idx) /
                 (\<Sum>k\<leftarrow>[0..<t]. exp (elems ?filled ! (idx - idx mod t + k)))
             = exp (filled_score x out idx) /
                 (\<Sum>k\<leftarrow>[0..<t]. exp (filled_score x out (idx - idx mod t + k)))"
      using nth[OF idx] by (simp only:)
  qed
  finally have smx: "softmax ?filled 1 =
     Inr \<lparr>shape = [b, t],
          elems = map (\<lambda>idx. exp (filled_score x out idx) /
                               (\<Sum>k\<leftarrow>[0..<t]. exp (filled_score x out (idx - idx mod t + k))))
                    [0..<b * t]\<rparr>" .
  show ?thesis
    unfolding MetaTaskLstmNetwork_forward_def
    using sm by (simp only: fst_conv enc lin mf smx bind_err_def sum.case prod.case if_True)
qed

lemma flat_lstm_net_wf: "wf_MetaTaskLstmNetwork (flat_lstm_net f v)"
  by (auto simp: wf_MetaTaskLstmNetwork_def flat_lstm_net_def MetaTaskLstmNetwork_init_def
      const_linear_def wf_Linear_def wf_tensor_def zero_lstm_def Let_def split: list.splits)

lemma flat_mlp_net_wf: "wf_MetaTaskMLPNetwork (flat_mlp_net f)"
  by (simp add: wf_MetaTaskMLPNetwork_def flat_mlp_net_def MetaTaskMLPNetwork_init_def
      const_linear_def wf_Linear_def)

lemma nth_map_upt0: "i < n \<Longrightarrow> map f [0..<n] ! i = f i"
  by simp

text \<open>
  C3, amended. Take a sequence network with softmax and a batch of \<open>b \<noteq> 1\<close> rows of
  \<open>t \<ge> 2\<close> token ids for which the head returns the scores \<open>out\<close>. The mask is taken
  from the token ids (lemma \<open>lstm_encode_Inr\<close>), and \<open>forward\<close> returns a tensor of the
  shape of the batch that is, in each row, the softmax of the scores with the sentinel
  -98765 in place of the score wherever the token id is 0. In each row the weights of all
  positions sum to 1. If a row has a position with a token id other than 0 and a score of
  at least -98745, then every position of the row with token id 0 has a weight below
  \<open>1 / 10 ^ 6\<close>, and the weights of the other positions sum to at least
  \<open>1 - t / 10 ^ 6\<close> and at most 1. Nothing is said about a batch of one row or of rows of
  one position.
\<close>

theorem softmax_weights_mask_padding:
  assumes wf: "wf_MetaTaskLstmNetwork net" and sm: "use_softmax net"
    and x: "wf_tensor x" "shape x = [b, t]" and b: "b \<noteq> 1" and t: "2 \<le> t"
    and sc: "lstm_scores net x = Inr out"
  shows "\<exists>y. fst (MetaTaskLstmNetwork_forward net x) = Inr y \<and> shape y = [b, t]
           \<and> length (elems y) = b * t
           \<and> (\<forall>i<b.
                (\<forall>k<t. elems y ! (i * t + k) =
                     exp (filled_score x out (i * t + k)) /
                     (\<Sum>j<t. exp (filled_score x out (i * t + j))))
                \<and> (\<Sum>k<t. elems y ! (i * t + k)) = 1
                \<and> ((\<exists>j<t. elems x ! (i * t + j) \<noteq> 0 \<and> - 98745 \<le> elems out ! (i * t + j)) \<longrightarrow>
                     (\<forall>k<t. elems x ! (i * t + k) = 0 \<longrightarrow> elems y ! (i * t + k) < 1 / 10 ^ 6)
                     \<and> 1 - real t / 10 ^ 6 \<le> (\<Sum>k | k < t \<and> elems x ! (i * t + k) \<noteq> 0. elems y ! (i * t + k))
                     \<and> (\<Sum>k | k < t \<and> elems x ! (i * t + k) \<noteq> 0. elems y ! (i * t + k)) \<le> 1))"
proof -
  let ?fs = "filled_score x out"
  let ?y = "\<lparr>shape = [b, t],
          elems = map (\<lambda>idx. exp (?fs idx) / (\<Sum>k\<leftarrow>[0..<t]. exp (?fs (idx - idx mod t + k))))
                    [0..<b * t]\<rparr>"
  let ?Z = "\<lambda>i. \<Sum>j<t. exp (?fs (i * t + j))"
  let ?w = "\<lambda>i k. elems ?y ! (i * t + k)"
  have fw: "fst (MetaTaskLstmNetwork_forward net x) = Inr ?y"
    using assms by (rule softmax_forward_value)
  have tpos: "0 < t" using t by simp
  have Zpos: "0 < ?Z i" for i
    using tpos by (intro sum_pos) auto
  have w: "?w i k = exp (?fs (i * t + k)) / ?Z i" if "i < b" "k < t" for i k
  proof -
    define idx where "idx = i * t + k"
    have idx: "idx < b * t" unfolding idx_def using that by (rule index_in_range)
    have base: "idx - idx mod t = i * t" unfolding idx_def using that by simp
    have Z: "(\<Sum>j\<leftarrow>[0..<t]. exp (?fs (i * t + j))) = ?Z i"
      by (simp add: interv_sum_list_conv_sum_set_nat atLeast0LessThan)
    have "elems ?y ! idx =
        exp (?fs idx) / (\<Sum>j\<leftarrow>[0..<t]. exp (?fs (idx - idx mod t + j)))"
      by (simp only: tensor.select_convs nth_map_upt0[OF idx])
    then show ?thesis unfolding base Z unfolding idx_def .
  qed
  have wpos: "0 \<le> ?w i k" if "i < b" "k < t" for i k
    unfolding w[OF that] using Zpos[of i] by simp
  have total: "(\<Sum>k<t. ?w i k) = 1" if "i < b" for i
  proof -
    have "(\<Sum>k<t. ?w i k) = (\<Sum>k<t. exp (?fs (i * t + k)) / ?Z i)"
      using w[OF that] by (intro sum.cong) simp_all
    also have "\<dots> = ?Z i / ?Z i" by (simp only: sum_divide_distrib)
    also have "\<dots> = 1" using Zpos[of i] by simp
    finally show ?thesis .
  qed
  have bound: "(\<forall>k<t. elems x ! (i * t + k) = 0 \<longrightarrow> ?w i k < 1 / 10 ^ 6)
        \<and> 1 - real t / 10 ^ 6 \<le> (\<Sum>k | k < t \<and> elems x ! (i * t + k) \<noteq> 0. ?w i k)
        \<and> (\<Sum>k | k < t \<and> elems x ! (i * t + k) \<noteq> 0. ?w i k) \<le> 1"
    if i: "i < b" and j: "j < t" "elems x ! (i * t + j) \<noteq> 0" "- 98745 \<le> elems out ! (i * t + j)"
    for i j
  proof -
    have "exp (- 98745) \<le> exp (?fs (i * t + j))"
      using j by (simp add: filled_score_def)
    also have "\<dots> \<le> ?Z i"
      using j(1) by (intro member_le_sum) simp_all
    finally have Zge: "exp (- 98745) \<le> ?Z i" .
    have masked: "?w i k < 1 / 10 ^ 6" if k: "k < t" "elems x ! (i * t + k) = 0" for k
    proof -
      have "?w i k = exp (- 98765) / ?Z i"
        using w[OF i k(1)] k(2) by (simp add: filled_score_def)
      also have "\<dots> \<le> exp (- 98765) / exp (- 98745)"
        using Zge by (intro divide_left_mono) (simp_all add: Zpos)
      also have "\<dots> = exp (- 20)" by (simp add: exp_diff[symmetric])
      also have "\<dots> < 1 / 10 ^ 6" by (rule exp_minus_20)
      finally show ?thesis .
    qed
    let ?M = "{k. k < t \<and> elems x ! (i * t + k) = 0}"
    let ?V = "{k. k < t \<and> elems x ! (i * t + k) \<noteq> 0}"
    have fin: "finite ?M" "finite ?V" by simp_all
    have "{..<t} = ?V \<union> ?M" by auto
    moreover have "?V \<inter> ?M = {}" by auto
    ultimately have split: "(\<Sum>k<t. ?w i k) = (\<Sum>k\<in>?V. ?w i k) + (\<Sum>k\<in>?M. ?w i k)"
      using fin by (simp only: sum.union_disjoint)
    have "(\<Sum>k\<in>?M. ?w i k) \<le> (\<Sum>k\<in>?M. 1 / 10 ^ 6)"
      using masked by (intro sum_mono) (simp add: less_imp_le)
    also have "\<dots> = real (card ?M) / 10 ^ 6" by simp
    also have "\<dots> \<le> real t / 10 ^ 6"
    proof -
      have "card ?M \<le> card {..<t}" by (intro card_mono) auto
      then show ?thesis by (simp add: divide_right_mono)
    qed
    finally have Mle: "(\<Sum>k\<in>?M. ?w i k) \<le> real t / 10 ^ 6" .
    have Mge: "0 \<le> (\<Sum>k\<in>?M. ?w i k)"
      using wpos[OF i] by (intro sum_nonneg) simp
    from split total[OF i] Mle Mge masked show ?thesis by auto
  qed
  have "shape ?y = [b, t]" "length (elems ?y) = b * t" by simp_all
  with fw w total bound show ?thesis by (intro exI[of _ ?y]) blast
qed

subsection \<open>The small networks, run\<close>

lemmas run_weights =
  MetaTaskLstmNetwork_forward_def flat_lstm_net_def MetaTaskLstmNetwork_init_def
  lstm_encode_def lstm_scores_def Embedding_forward_def eq_zero_def initial_state_def
  repeat_b11_def permute_102_def contiguous_def zero_lstm_def Linear_forward_def
  const_linear_def rows_def dot_def squeeze_def torch_abs_def bind_err_def Let_def
  MetaTaskMLPNetwork_forward_def flat_mlp_net_def MetaTaskMLPNetwork_init_def
  mlp_forward_def ReLU_def masked_fill_inplace_def broadcastable_to_def mask_at_def
  softmax_def

text \<open>
  C3 as stated fails in two ways. A batch of one row without any padding, and a batch of
  rows of one token, make \<open>forward\<close> raise. And when the scores are as low as the
  sentinel, here -98765 everywhere, a padding position gets the same weight as the others:
  in the row of the token ids 1 and 0 both weights are 1/2.
\<close>

theorem softmax_weights_fail_on_one_row_and_low_scores:
  "isl (fst (MetaTaskLstmNetwork_forward (flat_lstm_net True 1)
              \<lparr>shape = [1, 2], elems = [1, 2]\<rparr>))
   \<and> isl (fst (MetaTaskLstmNetwork_forward (flat_lstm_net True 1)
              \<lparr>shape = [2, 1], elems = [1, 2]\<rparr>))
   \<and> fst (MetaTaskLstmNetwork_forward (flat_lstm_net True (- 98765))
            \<lparr>shape = [2, 2], elems = [1, 0, 2, 3]\<rparr>)
     = Inr \<lparr>shape = [2, 2], elems = [1 / 2, 1 / 2, 1 / 2, 1 / 2]\<rparr>"
  by (simp add: run_weights upt_rec)

text \<open>
  C3, amended, on two rows of two tokens with the score 1 everywhere: in the first row,
  of the token ids 1 and 0, the weights sum to 1 and the weight of the padding is small.
\<close>

theorem softmax_weights_mask_padding_witness:
  "\<exists>y. fst (MetaTaskLstmNetwork_forward (flat_lstm_net True 1)
              \<lparr>shape = [2, 2], elems = [1, 0, 2, 3]\<rparr>) = Inr y
        \<and> shape y = [2, 2] \<and> elems y ! 0 + elems y ! 1 = 1 \<and> elems y ! 1 < 1 / 10 ^ 6"
proof -
  let ?x = "\<lparr>shape = [2, 2], elems = [1, 0, 2, 3 :: int]\<rparr>"
  let ?out = "\<lparr>shape = [2, 2, 1], elems = [1, 1, 1, 1 :: real]\<rparr>"
  have sc: "lstm_scores (flat_lstm_net True 1) ?x = Inr ?out"
    by (simp add: run_weights upt_rec)
  have sm: "use_softmax (flat_lstm_net True 1)"
    by (simp add: flat_lstm_net_def MetaTaskLstmNetwork_init_def)
  have wx: "wf_tensor ?x" "shape ?x = [2, 2]" by (simp_all add: wf_tensor_def)
  from softmax_weights_mask_padding[OF flat_lstm_net_wf sm wx _ _ sc]
  obtain y where y: "fst (MetaTaskLstmNetwork_forward (flat_lstm_net True 1) ?x) = Inr y"
    "shape y = [2, 2]"
    and rows: "\<forall>i<2. (\<Sum>k<2. elems y ! (i * 2 + k)) = 1
                \<and> ((\<exists>j<2. elems ?x ! (i * 2 + j) \<noteq> 0 \<and> - 98745 \<le> elems ?out ! (i * 2 + j)) \<longrightarrow>
                     (\<forall>k<2. elems ?x ! (i * 2 + k) = 0 \<longrightarrow> elems y ! (i * 2 + k) < 1 / 10 ^ 6))"
    by auto
  have z: "(0::nat) < 2" by simp
  from rows[rule_format, OF z]
  have A: "(\<Sum>k<2. elems y ! (0 * 2 + k)) = 1"
    and B: "(\<exists>j<2. elems ?x ! (0 * 2 + j) \<noteq> 0 \<and> - 98745 \<le> elems ?out ! (0 * 2 + j)) \<longrightarrow>
            (\<forall>k<2. elems ?x ! (0 * 2 + k) = 0 \<longrightarrow> elems y ! (0 * 2 + k) < 1 / 10 ^ 6)"
    by blast+
  from A have s: "elems y ! 0 + elems y ! 1 = 1" by (simp add: lessThan_Suc numeral_2_eq_2)
  have "\<exists>j<2. elems ?x ! (0 * 2 + j) \<noteq> 0 \<and> - 98745 \<le> elems ?out ! (0 * 2 + j)"
    by (intro exI[of _ 0]) simp
  with B have "\<forall>k<2. elems ?x ! (0 * 2 + k) = 0 \<longrightarrow> elems y ! (0 * 2 + k) < 1 / 10 ^ 6"
    by blast
  then have "elems ?x ! (0 * 2 + 1) = 0 \<longrightarrow> elems y ! (0 * 2 + 1) < 1 / 10 ^ 6" by simp
  then have m: "elems y ! 1 < 1 / 10 ^ 6" by simp
  from y s m show ?thesis by blast
qed

text \<open>C8 on the two batches it names.\<close>

theorem abs_weights_nonneg_and_unmasked_witness:
  "\<not> use_softmax (flat_lstm_net False 1)
   \<and> fst (MetaTaskLstmNetwork_forward (flat_lstm_net False 1) \<lparr>shape = [2, 2], elems = [1, 0, 0, 2]\<rparr>)
       = Inr \<lparr>shape = [2, 2], elems = [1, 1, 1, 1]\<rparr>
   \<and> list_all (\<lambda>v. 0 \<le> v) (elems \<lparr>shape = [2, 2], elems = [1, 1, 1, 1 :: real]\<rparr>)
   \<and> \<not> mlp_use_softmax (flat_mlp_net False)
   \<and> MetaTaskMLPNetwork_forward (flat_mlp_net False) \<lparr>shape = [2, 1], elems = [0, 3]\<rparr>
       = Inr \<lparr>shape = [2], elems = [1, 1]\<rparr>
   \<and> list_all (\<lambda>v. 0 \<le> v) (elems \<lparr>shape = [2], elems = [1, 1 :: real]\<rparr>)"
proof -
  let ?x = "\<lparr>shape = [2, 2], elems = [1, 0, 0, 2 :: int]\<rparr>"
  let ?y = "\<lparr>shape = [2, 2], elems = [1, 1, 1, 1 :: real]\<rparr>"
  let ?u = "\<lparr>shape = [2, 1], elems = [0, 3 :: real]\<rparr>"
  let ?w = "\<lparr>shape = [2], elems = [1, 1 :: real]\<rparr>"
  note T = abs_weights_nonneg_and_unmasked[of "flat_lstm_net False 1" ?x ?y "flat_mlp_net False" ?u ?w]
  have a: "\<not> use_softmax (flat_lstm_net False 1)"
    by (simp add: flat_lstm_net_def MetaTaskLstmNetwork_init_def)
  have b: "\<not> mlp_use_softmax (flat_mlp_net False)"
    by (simp add: flat_mlp_net_def MetaTaskMLPNetwork_init_def)
  from T have y: "fst (MetaTaskLstmNetwork_forward (flat_lstm_net False 1) ?x) = Inr ?y"
    and w: "MetaTaskMLPNetwork_forward (flat_mlp_net False) ?u = Inr ?w" by blast+
  from T a y have "\<forall>v\<in>set (elems ?y). 0 \<le> v" by blast
  then have ly: "list_all (\<lambda>v. 0 \<le> v) (elems ?y)" by (simp only: list_all_iff)
  from T b w have "\<forall>v\<in>set (elems ?w). 0 \<le> v" by blast
  then have lw: "list_all (\<lambda>v. 0 \<le> v) (elems ?w)" by (simp only: list_all_iff)
  from a b y w ly lw show ?thesis by blast
qed

lemma replicate_2: "replicate 2 r = [r, r]" by (simp add: numeral_2_eq_2)
lemma replicate_3: "replicate 3 r = [r, r, r]" by (simp add: numeral_3_eq_3)
lemma upt_0_2: "[0..<2] = [0, 1]" by (simp add: upt_rec)
lemma upt_0_3: "[0..<3] = [0, 1, 2]" by (simp add: upt_rec)
lemma upt_0_6: "[0..<6] = [0, 1, 2, 3, 4, 5]" by (simp add: upt_rec)

text \<open>
  C9 on \<open>seeded_lstm_net\<close>, for a batch of three sequences of two tokens: the module is
  as before; the second layer of every sequence starts from the second row of the stored
  states; and every position of every sequence gets the weight 7, the sum of the second
  row \<open>[3, 4]\<close> of the stored \<open>h0\<close>.
\<close>

theorem forward_keeps_and_seeds_initial_states_witness:
  "snd (MetaTaskLstmNetwork_forward_st seeded_lstm_net \<lparr>shape = [3, 2], elems = [1, 2, 3, 0, 4, 0]\<rparr>)
     = seeded_lstm_net
   \<and> fst (MetaTaskLstmNetwork_forward_st seeded_lstm_net \<lparr>shape = [3, 2], elems = [1, 2, 3, 0, 4, 0]\<rparr>)
     = Inr \<lparr>shape = [3, 2], elems = [7, 7, 7, 7, 7, 7]\<rparr>
   \<and> (\<exists>h c. initial_state (h0 seeded_lstm_net) 3 = Inr h \<and> initial_state (c0 seeded_lstm_net) 3 = Inr c
        \<and> shape h = [2, 3, 2] \<and> shape c = [2, 3, 2]
        \<and> take 2 (drop ((1 * 3 + 2) * 2) (elems h)) = [3, 4]
        \<and> take 2 (drop ((1 * 3 + 0) * 2) (elems h)) = [3, 4]
        \<and> take 2 (drop ((0 * 3 + 1) * 2) (elems c)) = [5, 6]
        \<and> lstm seeded_lstm_net \<lparr>shape = [3, 2, 1], elems = [0, 0, 0, 0, 0, 0]\<rparr> (h, c)
            = Inr \<lparr>shape = [3, 2, 2], elems = [3, 4, 3, 4, 3, 4, 3, 4, 3, 4, 3, 4]\<rparr>)"
proof -
  let ?x = "\<lparr>shape = [3, 2], elems = [1, 2, 3, 0, 4, 0 :: int]\<rparr>"
  let ?e = "\<lparr>shape = [3, 2, 1], elems = [0, 0, 0, 0, 0, 0 :: real]\<rparr>"
  note T = forward_keeps_and_seeds_initial_states[of seeded_lstm_net ?x ?x 2 2 2 3 2 ?e]
  have sh: "shape (h0 seeded_lstm_net) = [2, 2]" "shape (c0 seeded_lstm_net) = [2, 2]"
    and el: "elems (h0 seeded_lstm_net) = [1, 2, 3, 4]" "elems (c0 seeded_lstm_net) = [5, 6, 7, 8]"
    by (simp_all add: seeded_lstm_net_def MetaTaskLstmNetwork_init_def)
  have e: "Embedding_forward (embedding seeded_lstm_net) ?x = Inr ?e"
    by (simp add: seeded_lstm_net_def MetaTaskLstmNetwork_init_def Embedding_forward_def)
  have x: "shape ?x = [3, 2]" by simp
  from T seeded_lstm_net_wf sh x e obtain h c where
    hc: "initial_state (h0 seeded_lstm_net) 3 = Inr h" "initial_state (c0 seeded_lstm_net) 3 = Inr c"
      "shape h = [2, 3, 2]" "shape c = [2, 3, 2]"
    and rows: "\<forall>l<2. \<forall>j<3.
        take 2 (drop ((l * 3 + j) * 2) (elems h)) = take 2 (drop (l * 2) (elems (h0 seeded_lstm_net)))
      \<and> take 2 (drop ((l * 3 + j) * 2) (elems c)) = take 2 (drop (l * 2) (elems (c0 seeded_lstm_net)))"
    by blast
  have lt: "(1::nat) < 2" "(2::nat) < 3" "(0::nat) < 3" "(0::nat) < 2" "(1::nat) < 3" by simp_all
  from rows lt have
    "take 2 (drop ((1 * 3 + 2) * 2) (elems h)) = take 2 (drop (1 * 2) (elems (h0 seeded_lstm_net)))"
    "take 2 (drop ((1 * 3 + 0) * 2) (elems h)) = take 2 (drop (1 * 2) (elems (h0 seeded_lstm_net)))"
    "take 2 (drop ((0 * 3 + 1) * 2) (elems c)) = take 2 (drop (0 * 2) (elems (c0 seeded_lstm_net)))"
    by blast+
  then have r:
    "take 2 (drop ((1 * 3 + 2) * 2) (elems h)) = [3, 4]"
    "take 2 (drop ((1 * 3 + 0) * 2) (elems h)) = [3, 4]"
    "take 2 (drop ((0 * 3 + 1) * 2) (elems c)) = [5, 6]"
    by (simp_all add: el)
  have hval: "h = \<lparr>shape = [2, 3, 2], elems = [1, 2, 1, 2, 1, 2, 3, 4, 3, 4, 3, 4]\<rparr>"
    using hc(1) by (simp add: initial_state_def repeat_b11_def permute_102_def contiguous_def
        bind_err_def Let_def sh el upt_0_2 upt_0_3 replicate_3)
  have l: "lstm seeded_lstm_net ?e (h, c)
            = Inr \<lparr>shape = [3, 2, 2], elems = [3, 4, 3, 4, 3, 4, 3, 4, 3, 4, 3, 4]\<rparr>"
    unfolding hval
    by (simp add: seeded_lstm_net_def MetaTaskLstmNetwork_init_def state_reading_lstm_def
        wf_tensor_def upt_0_3 replicate_2)
  from T seeded_lstm_net_wf
  have "MetaTaskLstmNetwork_forward_st seeded_lstm_net ?x = MetaTaskLstmNetwork_forward seeded_lstm_net ?x"
    by blast
  moreover have "fst (MetaTaskLstmNetwork_forward seeded_lstm_net ?x)
      = Inr \<lparr>shape = [3, 2], elems = [7, 7, 7, 7, 7, 7]\<rparr>"
    by (simp add: MetaTaskLstmNetwork_forward_def seeded_lstm_net_def MetaTaskLstmNetwork_init_def
        lstm_encode_def Embedding_forward_def eq_zero_def initial_state_def
        repeat_b11_def permute_102_def contiguous_def state_reading_lstm_def Linear_forward_def
        const_linear_def rows_def dot_def squeeze_def torch_abs_def bind_err_def Let_def
        wf_tensor_def upt_0_2 upt_0_3 upt_0_6 replicate_2 replicate_3)
  ultimately have f: "fst (MetaTaskLstmNetwork_forward_st seeded_lstm_net ?x)
      = Inr \<lparr>shape = [3, 2], elems = [7, 7, 7, 7, 7, 7]\<rparr>"
    by simp
  from T have "snd (MetaTaskLstmNetwork_forward_st seeded_lstm_net ?x) = seeded_lstm_net" by blast
  with f hc r l show ?thesis by blast
qed

text \<open>
  C10 as stated, that on a one-row batch with softmax it is the softmax over dimension 1
  that raises, out of range, fails on one row of three tokens: the scores are computed,
  \<open>masked_fill_\<close> raises on them, and \<open>forward\<close> raises that \<open>RuntimeError\<close>, not an
  \<open>IndexError\<close>.
\<close>

theorem one_row_batch_error_is_not_of_softmax:
  "lstm_scores (flat_lstm_net True 1) \<lparr>shape = [1, 3], elems = [1, 2, 0]\<rparr>
     = Inr \<lparr>shape = [1, 3, 1], elems = [1, 1, 1]\<rparr>
   \<and> masked_fill_inplace (squeeze \<lparr>shape = [1, 3, 1], elems = [1, 1, 1]\<rparr>)
        (eq_zero \<lparr>shape = [1, 3], elems = [1, 2, 0 :: int]\<rparr>) (- 98765) = Inl RuntimeError
   \<and> fst (MetaTaskLstmNetwork_forward (flat_lstm_net True 1) \<lparr>shape = [1, 3], elems = [1, 2, 0]\<rparr>)
     = Inl RuntimeError
   \<and> fst (MetaTaskLstmNetwork_forward (flat_lstm_net True 1) \<lparr>shape = [1, 3], elems = [1, 2, 0]\<rparr>)
     \<noteq> Inl IndexError"
  by (simp add: run_weights upt_rec)

text \<open>
  C10, amended, on one row of three tokens, on one row of one feature, and on two rows of
  one feature with softmax.
\<close>

theorem one_row_batch_fails_at_masked_fill_witness:
  "fst (MetaTaskLstmNetwork_forward (flat_lstm_net True 1) \<lparr>shape = [1, 3], elems = [1, 2, 0]\<rparr>)
     = Inl RuntimeError
   \<and> fst (MetaTaskLstmNetwork_forward (flat_lstm_net False 1) \<lparr>shape = [1, 3], elems = [1, 2, 0]\<rparr>)
       = Inr \<lparr>shape = [3], elems = [1, 1, 1]\<rparr>
   \<and> MetaTaskMLPNetwork_forward (flat_mlp_net True) \<lparr>shape = [1, 1], elems = [3]\<rparr> = Inl RuntimeError
   \<and> MetaTaskMLPNetwork_forward (flat_mlp_net True) \<lparr>shape = [2, 1], elems = [3, 4]\<rparr> = Inl RuntimeError
   \<and> MetaTaskMLPNetwork_forward (flat_mlp_net False) \<lparr>shape = [1, 1], elems = [3]\<rparr>
       = Inr \<lparr>shape = [], elems = [1]\<rparr>"
proof -
  let ?x = "\<lparr>shape = [1, 3], elems = [1, 2, 0 :: int]\<rparr>"
  let ?u = "\<lparr>shape = [1, 1], elems = [3 :: real]\<rparr>"
  let ?v = "\<lparr>shape = [2, 1], elems = [3, 4 :: real]\<rparr>"
  have sm: "use_softmax (flat_lstm_net True 1)" "\<not> use_softmax (flat_lstm_net False 1)"
    by (simp_all add: flat_lstm_net_def MetaTaskLstmNetwork_init_def)
  have msm: "mlp_use_softmax (flat_mlp_net True)" "\<not> mlp_use_softmax (flat_mlp_net False)"
    by (simp_all add: flat_mlp_net_def MetaTaskMLPNetwork_init_def)
  have sc: "lstm_scores (flat_lstm_net f 1) ?x = Inr \<lparr>shape = [1, 3, 1], elems = [1, 1, 1]\<rparr>" for f
    by (simp add: run_weights upt_rec)
  have mu: "mlp_forward (mlp (flat_mlp_net f)) ?u = Inr \<lparr>shape = [1, 1], elems = [1]\<rparr>"
    and mv: "mlp_forward (mlp (flat_mlp_net f)) ?v = Inr \<lparr>shape = [2, 1], elems = [1, 1]\<rparr>" for f
    by (simp_all add: run_weights upt_rec)
  have sx: "shape ?x = [1, 3]" and su: "shape ?u = 1 # [1]" by simp_all
  note wl = flat_lstm_net_wf[of True 1] flat_lstm_net_wf[of False 1]
  note wm = flat_mlp_net_wf[of True] flat_mlp_net_wf[of False]
  from one_row_batch_fails_at_masked_fill[of "flat_lstm_net True 1" ?x 3 "flat_mlp_net True" ?u "[1]"]
    wl(1) sm(1) sx wm(1) msm(1)
  have "fst (MetaTaskLstmNetwork_forward (flat_lstm_net True 1) ?x) =
        bind_err (lstm_scores (flat_lstm_net True 1) ?x) (\<lambda>out. Inl RuntimeError)"
    and "MetaTaskMLPNetwork_forward (flat_mlp_net True) ?u =
        bind_err (mlp_forward (mlp (flat_mlp_net True)) ?u) (\<lambda>out. Inl RuntimeError)"
    by blast+
  then have 1: "fst (MetaTaskLstmNetwork_forward (flat_lstm_net True 1) ?x) = Inl RuntimeError"
    and 3: "MetaTaskMLPNetwork_forward (flat_mlp_net True) ?u = Inl RuntimeError"
    unfolding sc mu by (simp_all add: bind_err_def)
  from one_row_batch_fails_at_masked_fill[of "flat_lstm_net True 1" ?x 3 "flat_mlp_net True" ?v "[1]"]
    wm(1) msm(1)
  have "MetaTaskMLPNetwork_forward (flat_mlp_net True) ?v =
        bind_err (mlp_forward (mlp (flat_mlp_net True)) ?v) (\<lambda>out. Inl RuntimeError)"
    by blast
  then have 4: "MetaTaskMLPNetwork_forward (flat_mlp_net True) ?v = Inl RuntimeError"
    unfolding mv by (simp add: bind_err_def)
  from one_row_batch_fails_at_masked_fill[of "flat_lstm_net False 1" ?x 3 "flat_mlp_net False" ?u "[1]"]
    wl(2) sm(2) sx wm(2) msm(2) su
  have "fst (MetaTaskLstmNetwork_forward (flat_lstm_net False 1) ?x) =
        bind_err (lstm_scores (flat_lstm_net False 1) ?x)
          (\<lambda>out. Inr \<lparr>shape = filter (\<lambda>d. d \<noteq> 1) [3], elems = map abs (elems out)\<rparr>)"
    and "MetaTaskMLPNetwork_forward (flat_mlp_net False) ?u =
        bind_err (mlp_forward (mlp (flat_mlp_net False)) ?u)
          (\<lambda>out. Inr \<lparr>shape = filter (\<lambda>d. d \<noteq> 1) (butlast [1]), elems = map abs (elems out)\<rparr>)"
    by blast+
  then have 2: "fst (MetaTaskLstmNetwork_forward (flat_lstm_net False 1) ?x)
       = Inr \<lparr>shape = [3], elems = [1, 1, 1]\<rparr>"
    and 5: "MetaTaskMLPNetwork_forward (flat_mlp_net False) ?u = Inr \<lparr>shape = [], elems = [1]\<rparr>"
    unfolding sc mu by (simp_all add: bind_err_def)
  from 1 2 3 4 5 show ?thesis by blast
qed

end
